theory Spec2Isabelle
  imports Main
begin

section \<open>JavaScript values used by the adapters\<close>

text \<open>
  A value of TypeScript type \<^verbatim>\<open>string | undefined\<close> (and, at run time, possibly
  \<^verbatim>\<open>null\<close>).  The source tests such values for truthiness (\<^verbatim>\<open>if (this.cache)\<close>)
  and for nullishness (\<^verbatim>\<open>content ?? ''\<close>); the two tests differ on the empty string.
\<close>

datatype js_string = Undefined | Null | Str string

text \<open>JavaScript truthiness: \<^verbatim>\<open>undefined\<close>, \<^verbatim>\<open>null\<close> and \<^verbatim>\<open>''\<close> are falsy.\<close>

fun truthy :: "js_string \<Rightarrow> bool" where
  "truthy Undefined = False"
| "truthy Null = False"
| "truthy (Str s) = (s \<noteq> [])"

text \<open>The nullish coalescing operator \<^verbatim>\<open>a ?? b\<close>.\<close>

fun nullish_coalesce :: "js_string \<Rightarrow> js_string \<Rightarrow> js_string" where
  "nullish_coalesce Undefined d = d"
| "nullish_coalesce Null d = d"
| "nullish_coalesce (Str s) d = Str s"

text \<open>
  The errors thrown by the methods modelled below, one constructor per message, with
  the values the message is built from.
\<close>

datatype error =
    ProviderAlreadyRegistered string
  | ProviderNotRegistered string
  | CannotResolveCellUri string
  | CantParseUri string
  | NoNotebookFound string
  | NoCellFound int string

section \<open>workspace-main.ts: TextContentResource\<close>

text \<open>
  \<^verbatim>\<open>class TextContentResource\<close>: the URI (as the string \<^verbatim>\<open>this.uri.toString()\<close> that is
  sent to the proxy), the single cache slot, and the number of times
  \<^verbatim>\<open>onDidChangeContentsEmitter\<close> has fired.
\<close>

record TextContentResource =
  res_uri :: string
  cache :: js_string
  fired :: nat

text \<open>
  \<^verbatim>\<open>readContents\<close>.  The first argument is the remote side: what
  \<^verbatim>\<open>proxy.$provideTextDocumentContent(uri)\<close> resolves to.  The result is the content
  the promise resolves to, the list of URIs for which the proxy was called, and the
  resource afterwards.
\<close>

definition readContents ::
  "(string \<Rightarrow> js_string) \<Rightarrow> TextContentResource \<Rightarrow> js_string \<times> string list \<times> TextContentResource" where
  "readContents provideTextDocumentContent r =
     (if truthy (cache r) then
        (let content = cache r in (content, [], r\<lparr>cache := Undefined\<rparr>))
      else
        (let content = provideTextDocumentContent (res_uri r)
         in (nullish_coalesce content (Str []), [res_uri r], r)))"

definition setContent :: "string \<Rightarrow> TextContentResource \<Rightarrow> TextContentResource" where
  "setContent content r = r\<lparr>cache := Str content, fired := Suc (fired r)\<rparr>"

section \<open>workspace-main.ts: TextContentResourceResolver\<close>

text \<open>
  \<^verbatim>\<open>Map.prototype.has\<close>, \<^verbatim>\<open>set\<close> and \<^verbatim>\<open>delete\<close>; \<^verbatim>\<open>delete\<close> returns whether the key was
  present, together with the map afterwards.
\<close>

definition map_has :: "('k \<rightharpoonup> 'v) \<Rightarrow> 'k \<Rightarrow> bool" where
  "map_has m k = (m k \<noteq> None)"

definition map_delete :: "('k \<rightharpoonup> 'v) \<Rightarrow> 'k \<Rightarrow> bool \<times> ('k \<rightharpoonup> 'v)" where
  "map_delete m k = (m k \<noteq> None, m(k := None))"

text \<open>
  \<^verbatim>\<open>class TextContentResourceResolver\<close>.  A provider is the closure built in
  \<^verbatim>\<open>registerContentProvider\<close>; it is determined by the proxy it captures, so the map
  stores that proxy.
\<close>

record 'p TextContentResourceResolver =
  providers :: "string \<rightharpoonup> 'p"
  resources :: "string \<rightharpoonup> TextContentResource"

text \<open>
  A method that may throw returns the thrown error or the value, paired with the
  object's state when the method is left (by \<^verbatim>\<open>return\<close> or by \<^verbatim>\<open>throw\<close>).
\<close>

definition registerContentProvider ::
  "string \<Rightarrow> 'p \<Rightarrow> 'p TextContentResourceResolver \<Rightarrow> (error + unit) \<times> 'p TextContentResourceResolver" where
  "registerContentProvider scheme proxy this =
     (if map_has (providers this) scheme then (Inl (ProviderAlreadyRegistered scheme), this)
      else (Inr (), this\<lparr>providers := (providers this)(scheme \<mapsto> proxy)\<rparr>))"

definition unregisterContentProvider ::
  "string \<Rightarrow> 'p TextContentResourceResolver \<Rightarrow> (error + unit) \<times> 'p TextContentResourceResolver" where
  "unregisterContentProvider scheme this =
     (let (deleted, providers') = map_delete (providers this) scheme;
          this' = this\<lparr>providers := providers'\<rparr>
      in if \<not> deleted then (Inl (ProviderNotRegistered scheme), this') else (Inr (), this'))"

text \<open>
  A resolver as constructed, with both maps empty, and the state it reaches through a
  sequence of registrations and unregistrations (the only two methods that write
  \<^verbatim>\<open>providers\<close>), whether or not the individual calls throw.
\<close>

definition new_TextContentResourceResolver :: "'p TextContentResourceResolver" where
  "new_TextContentResourceResolver = \<lparr>providers = Map.empty, resources = Map.empty\<rparr>"

datatype 'p resolver_op = RegisterOp string 'p | UnregisterOp string

fun resolver_ops ::
  "'p resolver_op list \<Rightarrow> 'p TextContentResourceResolver \<Rightarrow> 'p TextContentResourceResolver" where
  "resolver_ops [] this = this"
| "resolver_ops (RegisterOp scheme proxy # ops) this =
     resolver_ops ops (snd (registerContentProvider scheme proxy this))"
| "resolver_ops (UnregisterOp scheme # ops) this =
     resolver_ops ops (snd (unregisterContentProvider scheme this))"

section \<open>workspace-main.ts: WorkspaceMainImpl\<close>

text \<open>
  The fields of \<^verbatim>\<open>class WorkspaceMainImpl\<close> that its methods read and write.
  \<^verbatim>\<open>toDispose\<close> holds, for every disposable pushed by
  \<^verbatim>\<open>$registerTextDocumentContentProvider\<close>, the scheme it will unregister;
  \<^verbatim>\<open>roots\<close> is \<^verbatim>\<open>undefined\<close> until the first assignment; a canonical-URI provider
  is stored as the disposable (of type \<open>'d\<close>) that the canonical-URI service returned.
\<close>

record ('p, 'd) WorkspaceMainImpl =
  proxy :: 'p
  resourceResolver :: "'p TextContentResourceResolver"
  toDispose :: "string list"
  workspaceSearch :: "nat set"
  canonicalUriProviders :: "string \<rightharpoonup> 'd"
  roots :: "string list option"

text \<open>
  The object as constructed around an injected proxy: the field initialisers give
  empty collections, and \<^verbatim>\<open>roots\<close> has no initialiser.
\<close>

definition new_WorkspaceMainImpl :: "'p \<Rightarrow> ('p, 'd) WorkspaceMainImpl" where
  "new_WorkspaceMainImpl p =
     \<lparr>proxy = p, resourceResolver = new_TextContentResourceResolver, toDispose = [],
      workspaceSearch = {}, canonicalUriProviders = Map.empty, roots = None\<rparr>"

text \<open>
  The calls a method of \<^verbatim>\<open>WorkspaceMainImpl\<close> makes on its collaborators, in the order
  made: the plugin-side proxies, the disposables and the console.
\<close>

datatype ('sd, 'd) workspace_call =
    OnWorkspaceFoldersChanged "string list"
  | UpdatePluginsWorkspaceData 'sd
  | Dispose 'd
  | ConsoleWarn string

subsection \<open>Workspace roots\<close>

text \<open>\<^verbatim>\<open>roots[index]\<close>: \<^verbatim>\<open>undefined\<close> (here \<open>None\<close>) when the index is out of range.\<close>

definition index_at :: "'a list \<Rightarrow> nat \<Rightarrow> 'a option" where
  "index_at xs i = (if i < length xs then Some (xs ! i) else None)"

text \<open>\<^verbatim>\<open>Array.prototype.some\<close> with a callback of the element and its index.\<close>

primrec some_from :: "('a \<Rightarrow> nat \<Rightarrow> bool) \<Rightarrow> nat \<Rightarrow> 'a list \<Rightarrow> bool" where
  "some_from p i [] = False"
| "some_from p i (x # xs) = (p x i \<or> some_from p (Suc i) xs)"

definition isAnyRootChanged :: "('p, 'd) WorkspaceMainImpl \<Rightarrow> string list \<Rightarrow> bool" where
  "isAnyRootChanged this new_roots =
     (case roots this of
        None \<Rightarrow> True
      | Some old_roots \<Rightarrow>
          if length old_roots \<noteq> length new_roots then True
          else some_from (\<lambda>root index. Some root \<noteq> index_at new_roots index) 0 old_roots)"

text \<open>
  \<^verbatim>\<open>processWorkspaceFoldersChanged\<close>.  The second argument is what the awaited
  \<^verbatim>\<open>pluginServer.getAllStorageValues\<close> yields (\<open>None\<close> when that promise rejects, in which
  case the storage proxy is not called).
\<close>

definition processWorkspaceFoldersChanged ::
  "string list \<Rightarrow> 'sd option \<Rightarrow> ('p, 'd) WorkspaceMainImpl \<Rightarrow>
     ('p, 'd) WorkspaceMainImpl \<times> ('sd, 'd) workspace_call list" where
  "processWorkspaceFoldersChanged new_roots keyValueStorageWorkspacesData this =
     (if isAnyRootChanged this new_roots = False then (this, [])
      else (this\<lparr>roots := Some new_roots\<rparr>,
            OnWorkspaceFoldersChanged new_roots #
            (case keyValueStorageWorkspacesData of
               None \<Rightarrow> []
             | Some d \<Rightarrow> [UpdatePluginsWorkspaceData d])))"

subsection \<open>Registration of text-content and canonical-URI providers\<close>

definition registerTextDocumentContentProvider ::
  "string \<Rightarrow> ('p, 'd) WorkspaceMainImpl \<Rightarrow> (error + unit) \<times> ('p, 'd) WorkspaceMainImpl" where
  "registerTextDocumentContentProvider scheme this =
     (case registerContentProvider scheme (proxy this) (resourceResolver this) of
        (Inl e, rr) \<Rightarrow> (Inl e, this\<lparr>resourceResolver := rr\<rparr>)
      | (Inr u, rr) \<Rightarrow>
          (Inr (), this\<lparr>resourceResolver := rr, toDispose := toDispose this @ [scheme]\<rparr>))"

definition unregisterTextDocumentContentProvider ::
  "string \<Rightarrow> ('p, 'd) WorkspaceMainImpl \<Rightarrow> (error + unit) \<times> ('p, 'd) WorkspaceMainImpl" where
  "unregisterTextDocumentContentProvider scheme this =
     (case unregisterContentProvider scheme (resourceResolver this) of
        (res, rr) \<Rightarrow> (res, this\<lparr>resourceResolver := rr\<rparr>))"

text \<open>
  \<^verbatim>\<open>$registerCanonicalUriProvider\<close>.  \<^verbatim>\<open>canonicalUriService\<close> is an injected service
  whose code is not part of these files, so the outcome of its
  \<^verbatim>\<open>registerCanonicalUriProvider(scheme, provider)\<close> is the second argument: either it
  throws (\<open>Inl\<close>) or it returns a disposable (\<open>Inr\<close>).  The argument of
  \<^verbatim>\<open>Map.set\<close> is evaluated first, so a throw leaves the map as it was.
\<close>

definition registerCanonicalUriProvider ::
  "string \<Rightarrow> 'e + 'd \<Rightarrow> ('p, 'd) WorkspaceMainImpl \<Rightarrow> ('e + unit) \<times> ('p, 'd) WorkspaceMainImpl" where
  "registerCanonicalUriProvider scheme service_result this =
     (case service_result of
        Inl e \<Rightarrow> (Inl e, this)
      | Inr disposable \<Rightarrow>
          (Inr (), this\<lparr>canonicalUriProviders := (canonicalUriProviders this)(scheme \<mapsto> disposable)\<rparr>))"

definition unregisterCanonicalUriProvider ::
  "string \<Rightarrow> ('p, 'd) WorkspaceMainImpl \<Rightarrow>
     ('p, 'd) WorkspaceMainImpl \<times> ('sd, 'd) workspace_call list" where
  "unregisterCanonicalUriProvider scheme this =
     (case canonicalUriProviders this scheme of
        Some disposable \<Rightarrow>
          (this\<lparr>canonicalUriProviders := snd (map_delete (canonicalUriProviders this) scheme)\<rparr>,
           [Dispose disposable])
      | None \<Rightarrow> (this, [ConsoleWarn scheme]))"

subsection \<open>The canonical-URI service\<close>

text \<open>
  Modelled from the spec: the class \<^verbatim>\<open>CanonicalUriService\<close>, whose method
  \<^verbatim>\<open>registerCanonicalUriProvider\<close> is called by \<^verbatim>\<open>$registerCanonicalUriProvider\<close> and
  which is not among the source files.  The spec lists it as the "canonical-URI
  provider registry", says that "uniqueness of registered scheme-to-resolver mapping is
  enforced (registering a duplicate scheme fails)", and that the registration of
  canonical-URI providers is "guarded against double-registration".  So the service
  holds the schemes that have a provider; registering a scheme it holds throws;
  registering any other scheme adds it and returns a disposable, and disposing of that
  removes the scheme again.
\<close>

record CanonicalUriService =
  canonical_schemes :: "string set"

datatype canonical_disposable = RemoveCanonicalUriProvider string

datatype canonical_error = CanonicalUriProviderExists string

definition new_CanonicalUriService :: CanonicalUriService where
  "new_CanonicalUriService = \<lparr>canonical_schemes = {}\<rparr>"

definition CanonicalUriService_register ::
  "string \<Rightarrow> CanonicalUriService \<Rightarrow>
     (canonical_error + canonical_disposable) \<times> CanonicalUriService" where
  "CanonicalUriService_register scheme service =
     (if scheme \<in> canonical_schemes service
      then (Inl (CanonicalUriProviderExists scheme), service)
      else (Inr (RemoveCanonicalUriProvider scheme),
            service\<lparr>canonical_schemes := insert scheme (canonical_schemes service)\<rparr>))"

fun CanonicalUriService_dispose ::
  "canonical_disposable \<Rightarrow> CanonicalUriService \<Rightarrow> CanonicalUriService" where
  "CanonicalUriService_dispose (RemoveCanonicalUriProvider scheme) service =
     service\<lparr>canonical_schemes := canonical_schemes service - {scheme}\<rparr>"

text \<open>
  The two methods of \<^verbatim>\<open>WorkspaceMainImpl\<close> run against that service, whose state is
  kept beside the object: \<^verbatim>\<open>$registerCanonicalUriProvider\<close> receives what the service's
  registration yields, and the disposable that \<^verbatim>\<open>$unregisterCanonicalUriProvider\<close>
  disposes of acts on the service.
\<close>

definition canonical_register ::
  "string \<Rightarrow> CanonicalUriService \<times> ('p, canonical_disposable) WorkspaceMainImpl \<Rightarrow>
     (canonical_error + unit) \<times>
     (CanonicalUriService \<times> ('p, canonical_disposable) WorkspaceMainImpl)" where
  "canonical_register scheme st =
     (let (service, this) = st;
          (service_result, service') = CanonicalUriService_register scheme service;
          (res, this') = registerCanonicalUriProvider scheme service_result this
      in (res, (service', this')))"

fun dispose_call ::
  "('sd, canonical_disposable) workspace_call \<Rightarrow> CanonicalUriService \<Rightarrow> CanonicalUriService" where
  "dispose_call (Dispose disposable) service = CanonicalUriService_dispose disposable service"
| "dispose_call c service = service"

definition canonical_unregister ::
  "string \<Rightarrow> CanonicalUriService \<times> ('p, canonical_disposable) WorkspaceMainImpl \<Rightarrow>
     (CanonicalUriService \<times> ('p, canonical_disposable) WorkspaceMainImpl) \<times>
     (unit, canonical_disposable) workspace_call list" where
  "canonical_unregister scheme st =
     (let (service, this) = st;
          (this', calls) = unregisterCanonicalUriProvider scheme this
      in ((fold dispose_call calls service, this'), calls))"

text \<open>
  The state reached through a sequence of canonical-URI registrations and
  unregistrations, whether or not the individual calls are rejected.
\<close>

datatype canonical_op = CanonicalRegisterOp string | CanonicalUnregisterOp string

fun canonical_ops ::
  "canonical_op list \<Rightarrow> CanonicalUriService \<times> ('p, canonical_disposable) WorkspaceMainImpl \<Rightarrow>
     CanonicalUriService \<times> ('p, canonical_disposable) WorkspaceMainImpl" where
  "canonical_ops [] st = st"
| "canonical_ops (CanonicalRegisterOp scheme # ops) st =
     canonical_ops ops (snd (canonical_register scheme st))"
| "canonical_ops (CanonicalUnregisterOp scheme # ops) st =
     canonical_ops ops (fst (canonical_unregister scheme st))"

text \<open>
  The object and the service agree: each scheme listed in \<^verbatim>\<open>canonicalUriProviders\<close> is
  one that the service holds, and is listed with the disposable that removes it.
\<close>

definition canonical_inv ::
  "CanonicalUriService \<times> ('p, canonical_disposable) WorkspaceMainImpl \<Rightarrow> bool" where
  "canonical_inv st =
     (\<forall>s d. canonicalUriProviders (snd st) s = Some d \<longrightarrow>
        d = RemoveCanonicalUriProvider s \<and> s \<in> canonical_schemes (fst st))"

subsection \<open>Text search: \<^verbatim>\<open>$findTextInFiles\<close>\<close>

text \<open>
  \<^verbatim>\<open>options.maxResults\<close> is an optional number, modelled as an optional integer.
  \<^verbatim>\<open>options.maxResults ? options.maxResults : 150\<close> tests truthiness: \<^verbatim>\<open>undefined\<close>
  and \<^verbatim>\<open>0\<close> both select the default.
\<close>

record FindTextInFilesOptions =
  maxResults :: "int option"

definition maxHits_of :: "FindTextInFilesOptions \<Rightarrow> int" where
  "maxHits_of options =
     (case maxResults options of
        None \<Rightarrow> 150
      | Some n \<Rightarrow> if n \<noteq> 0 then n else 150)"

text \<open>
  A search result as the callback sees it: only \<^verbatim>\<open>result.matches\<close> is read, and the
  guard \<^verbatim>\<open>result && result.matches && result.matches.length\<close> allows for an absent
  result and for absent matches.
\<close>

record 'm SearchInWorkspaceResult =
  result_matches :: "'m list option"

text \<open>
  The calls made while a search runs: \<^verbatim>\<open>proxy.$onTextSearchResult(id, done, result?)\<close>,
  \<^verbatim>\<open>searchInWorkspaceService.cancel(searchId)\<close>, and \<^verbatim>\<open>resolve({ limitHit })\<close>.
\<close>

datatype 'm search_call =
    OnTextSearchResult nat bool "'m SearchInWorkspaceResult option"
  | SearchCancel nat
  | Resolve bool

text \<open>
  The variables the two callbacks close over: \<^verbatim>\<open>matches\<close>, \<^verbatim>\<open>canceledRequest\<close>, and
  the listeners registered on the token so far (each is determined by the
  \<^verbatim>\<open>searchId\<close> it captured).
\<close>

record TextSearchClosure =
  matches :: int
  canceledRequest :: bool
  tokenListeners :: "nat list"

text \<open>
  \<^verbatim>\<open>result.matches.splice(result.matches.length - 1, 1)\<close> removes the last element; on
  an empty array it removes nothing.
\<close>

definition splice_last :: "'m list \<Rightarrow> 'm list" where
  "splice_last ms = (if ms = [] then [] else butlast ms)"

text \<open>
  The loop \<^verbatim>\<open>while ((matches + result.matches.length) > maxHits) splice(...)\<close>.  It has
  no other exit, so it is a partial function: \<open>None\<close> is the loop that never ends.
\<close>

partial_function (option) truncateMatches :: "int \<Rightarrow> int \<Rightarrow> 'm list \<Rightarrow> 'm list option" where
  "truncateMatches matches_so_far maxHits ms =
     (if matches_so_far + int (length ms) > maxHits
      then truncateMatches matches_so_far maxHits (splice_last ms)
      else Some ms)"

text \<open>
  The \<^verbatim>\<open>onResult\<close> callback.  \<open>isCancellationRequested\<close> is what
  \<^verbatim>\<open>token.isCancellationRequested\<close> reads when the callback runs.  The result is
  \<open>None\<close> when the truncation loop does not end.
\<close>

definition onResult ::
  "int \<Rightarrow> nat \<Rightarrow> nat \<Rightarrow> bool \<Rightarrow> 'm SearchInWorkspaceResult option \<Rightarrow>
     ('p, 'd) WorkspaceMainImpl \<times> TextSearchClosure \<Rightarrow>
     ((('p, 'd) WorkspaceMainImpl \<times> TextSearchClosure) \<times> 'm search_call list) option" where
  "onResult maxHits searchRequestId searchId isCancellationRequested result st =
     (let (this, c) = st in
      if canceledRequest c then Some ((this, c), [])
      else
        let hasSearch = (searchId \<in> workspaceSearch this);
            this1 = (if \<not> hasSearch
                     then this\<lparr>workspaceSearch := insert searchId (workspaceSearch this)\<rparr>
                     else this);
            c1 = (if \<not> hasSearch
                  then c\<lparr>tokenListeners := tokenListeners c @ [searchId]\<rparr>
                  else c)
        in
        if isCancellationRequested
        then Some ((this1, c1\<lparr>canceledRequest := True\<rparr>), [SearchCancel searchId])
        else
          (case result of
             None \<Rightarrow> Some ((this1, c1), [])
           | Some r \<Rightarrow>
              (case result_matches r of
                 None \<Rightarrow> Some ((this1, c1), [])
               | Some ms \<Rightarrow>
                  if length ms = 0 then Some ((this1, c1), [])
                  else
                    (case truncateMatches (matches c1) maxHits ms of
                       None \<Rightarrow> None
                     | Some ms' \<Rightarrow>
                        let r' = r\<lparr>result_matches := Some ms'\<rparr>;
                            c2 = c1\<lparr>matches := matches c1 + int (length ms')\<rparr>
                        in Some ((this1, c2),
                                 OnTextSearchResult searchRequestId False (Some r') #
                                 (if maxHits \<le> matches c2 then [SearchCancel searchId] else []))))))"

text \<open>
  The listeners that \<^verbatim>\<open>onResult\<close> registered with \<^verbatim>\<open>token.onCancellationRequested\<close>,
  all run when the token fires.
\<close>

definition onCancellationRequested ::
  "('p, 'd) WorkspaceMainImpl \<times> TextSearchClosure \<Rightarrow>
     (('p, 'd) WorkspaceMainImpl \<times> TextSearchClosure) \<times> 'm search_call list" where
  "onCancellationRequested st =
     (let (this, c) = st in
      ((this, if tokenListeners c = [] then c else c\<lparr>canceledRequest := True\<rparr>),
       map SearchCancel (tokenListeners c)))"

text \<open>The \<^verbatim>\<open>onDone\<close> callback.\<close>

definition onDone ::
  "int \<Rightarrow> nat \<Rightarrow> nat \<Rightarrow> ('p, 'd) WorkspaceMainImpl \<times> TextSearchClosure \<Rightarrow>
     (('p, 'd) WorkspaceMainImpl \<times> TextSearchClosure) \<times> 'm search_call list" where
  "onDone maxHits searchRequestId searchId st =
     (let (this, c) = st;
          hasSearch = (searchId \<in> workspaceSearch this)
      in ((if hasSearch then this\<lparr>workspaceSearch := workspaceSearch this - {searchId}\<rparr> else this, c),
          (if hasSearch then [SearchCancel searchId] else []) @
          [OnTextSearchResult searchRequestId True None,
           Resolve (if maxHits \<le> matches c then True else False)]))"

text \<open>
  What the search service and the cancellation token may do to a running request:
  deliver a result (with the token's flag as read at that moment), signal completion,
  or fire the token.
\<close>

datatype 'm search_event =
    ResultEvent nat bool "'m SearchInWorkspaceResult option"
  | DoneEvent nat
  | CancellationEvent

definition search_step ::
  "int \<Rightarrow> nat \<Rightarrow> 'm search_event \<Rightarrow> ('p, 'd) WorkspaceMainImpl \<times> TextSearchClosure \<Rightarrow>
     ((('p, 'd) WorkspaceMainImpl \<times> TextSearchClosure) \<times> 'm search_call list) option" where
  "search_step maxHits searchRequestId ev st =
     (case ev of
        ResultEvent searchId tok result \<Rightarrow> onResult maxHits searchRequestId searchId tok result st
      | DoneEvent searchId \<Rightarrow> Some (onDone maxHits searchRequestId searchId st)
      | CancellationEvent \<Rightarrow> Some (onCancellationRequested st))"

fun search_run ::
  "int \<Rightarrow> nat \<Rightarrow> 'm search_event list \<Rightarrow> ('p, 'd) WorkspaceMainImpl \<times> TextSearchClosure \<Rightarrow>
     ((('p, 'd) WorkspaceMainImpl \<times> TextSearchClosure) \<times> 'm search_call list) option" where
  "search_run maxHits searchRequestId [] st = Some (st, [])"
| "search_run maxHits searchRequestId (ev # evs) st =
     (case search_step maxHits searchRequestId ev st of
        None \<Rightarrow> None
      | Some (st1, calls1) \<Rightarrow>
         (case search_run maxHits searchRequestId evs st1 of
            None \<Rightarrow> None
          | Some (st2, calls2) \<Rightarrow> Some (st2, calls1 @ calls2)))"

text \<open>
  \<^verbatim>\<open>$findTextInFiles\<close> run against a sequence of events: the closure starts with
  \<^verbatim>\<open>matches = 0\<close> and \<^verbatim>\<open>canceledRequest = false\<close>, and no listener is registered.
\<close>

definition new_TextSearchClosure :: TextSearchClosure where
  "new_TextSearchClosure = \<lparr>matches = 0, canceledRequest = False, tokenListeners = []\<rparr>"

definition findTextInFiles ::
  "FindTextInFilesOptions \<Rightarrow> nat \<Rightarrow> 'm search_event list \<Rightarrow> ('p, 'd) WorkspaceMainImpl \<Rightarrow>
     ((('p, 'd) WorkspaceMainImpl \<times> TextSearchClosure) \<times> 'm search_call list) option" where
  "findTextInFiles options searchRequestId evs this =
     search_run (maxHits_of options) searchRequestId evs (this, new_TextSearchClosure)"

text \<open>The number of matches a call hands to the plugin side.\<close>

fun delivered :: "'m search_call \<Rightarrow> nat" where
  "delivered (OnTextSearchResult i d (Some r)) =
     (case result_matches r of None \<Rightarrow> 0 | Some ms \<Rightarrow> length ms)"
| "delivered c = 0"

definition total_delivered :: "'m search_call list \<Rightarrow> nat" where
  "total_delivered calls = sum_list (map delivered calls)"

text \<open>What the promise resolves to: the argument of the first \<^verbatim>\<open>resolve\<close> call, if any.\<close>

fun promise_result :: "'m search_call list \<Rightarrow> bool option" where
  "promise_result [] = None"
| "promise_result (Resolve limitHit # cs) = Some limitHit"
| "promise_result (c # cs) = promise_result cs"

text \<open>
  The cap in the spec's words, to compare \<open>maxHits_of\<close> with: "options.maxResults when
  given, otherwise the default cap".
\<close>

definition spec_cap :: "FindTextInFilesOptions \<Rightarrow> int" where
  "spec_cap options = (case maxResults options of None \<Rightarrow> 150 | Some n \<Rightarrow> n)"

text \<open>
  Whether the calls that one event caused hand to the plugin side a batch other than
  the one received, that is, a truncated one; and whether that happens at some event
  of a run.
\<close>

fun batch_truncated :: "'m search_event \<Rightarrow> 'm search_call list \<Rightarrow> bool" where
  "batch_truncated (ResultEvent searchId tok (Some r)) (OnTextSearchResult i d (Some r') # calls) =
     (result_matches r' \<noteq> result_matches r)"
| "batch_truncated ev calls = False"

fun truncation_occurs ::
  "int \<Rightarrow> nat \<Rightarrow> 'm search_event list \<Rightarrow> ('p, 'd) WorkspaceMainImpl \<times> TextSearchClosure \<Rightarrow> bool" where
  "truncation_occurs maxHits searchRequestId [] st = False"
| "truncation_occurs maxHits searchRequestId (ev # evs) st =
     (case search_step maxHits searchRequestId ev st of
        None \<Rightarrow> False
      | Some (st1, calls1) \<Rightarrow>
          batch_truncated ev calls1 \<or> truncation_occurs maxHits searchRequestId evs st1)"

section \<open>URIs and their components\<close>

text \<open>
  Modelled from the spec: the \<^verbatim>\<open>UriComponents\<close> interface, whose declaration is not
  among the source files.  The spec lists it among the wire DTOs as "URI components
  (scheme/path/query/fragment decomposition)": a plain data object of string fields.
\<close>

record UriComponents =
  scheme :: string
  path :: string
  query :: string
  fragment :: string

text \<open>
  The \<^verbatim>\<open>URI\<close> class is not among the source files either; its instances are values of
  a type \<open>'u\<close>, and the members that the adapters call are taken as parameters:
  the \<^verbatim>\<open>scheme\<close> getter, \<^verbatim>\<open>toString()\<close>, \<^verbatim>\<open>toComponents()\<close> and the static
  \<^verbatim>\<open>URI.fromComponents\<close>.
\<close>

record 'u URI_class =
  uri_scheme :: "'u \<Rightarrow> string"
  uri_toString :: "'u \<Rightarrow> string"
  toComponents :: "'u \<Rightarrow> UriComponents"
  fromComponents :: "UriComponents \<Rightarrow> 'u"

text \<open>
  \<^verbatim>\<open>toString()\<close> called on a plain data object is JavaScript's
  \<^verbatim>\<open>Object.prototype.toString\<close>, whose result does not depend on the fields.
\<close>

definition Object_toString :: "UriComponents \<Rightarrow> string" where
  "Object_toString obj = ''[object Object]''"

text \<open>
  An instance of these members on which the model can be evaluated: a URI held as its
  string form \<^verbatim>\<open>scheme:path\<close>.
\<close>

definition string_URI :: "string URI_class" where
  "string_URI =
     \<lparr>uri_scheme = takeWhile (\<lambda>c. c \<noteq> CHR '':''),
      uri_toString = (\<lambda>u. u),
      toComponents = (\<lambda>u. \<lparr>scheme = takeWhile (\<lambda>c. c \<noteq> CHR '':'') u,
                             path = drop 1 (dropWhile (\<lambda>c. c \<noteq> CHR '':'') u),
                             query = [], fragment = []\<rparr>),
      fromComponents = (\<lambda>c. scheme c @ '':'' @ path c)\<rparr>"

section \<open>notebook-documents-main.ts: NotebookDocumentsMainImpl\<close>

subsection \<open>Change events and their wire form\<close>

text \<open>
  The enum \<^verbatim>\<open>NotebookCellsChangeType\<close> and the union type of the change events are
  declared in the notebook package, outside the source files.  Besides the nine kinds
  that the listener's \<^verbatim>\<open>switch\<close> names, the enum has the kinds \<^verbatim>\<open>Initialize\<close> and
  \<^verbatim>\<open>Unknown\<close>, and the union has an event type for each of the two.
\<close>

datatype NotebookCellsChangeType =
    ModelChange | Move | Output | OutputItem
  | ChangeCellLanguage | ChangeCellContent | ChangeCellMetadata | ChangeCellInternalMetadata
  | ChangeDocumentMetadata
  | Initialize | Unknown

text \<open>The kinds for which the listener's \<^verbatim>\<open>switch\<close> has a \<^verbatim>\<open>case\<close> label.\<close>

fun has_case :: "NotebookCellsChangeType \<Rightarrow> bool" where
  "has_case Initialize = False"
| "has_case Unknown = False"
| "has_case k = True"

text \<open>
  An event carries the fields the listener reads.  \<open>'a\<close> is the type of the model-side
  objects (cells, outputs, output items), \<open>'md\<close> of metadata, and \<open>'x\<close> of everything
  that is not looked at: the other fields of a diff (\<^verbatim>\<open>...diff\<close>), the whole of an
  event that is pushed as it is, and the fields of an event of a kind without a
  \<^verbatim>\<open>case\<close>.
\<close>

datatype ('a, 'x, 'md) NotebookContentChangedEvent =
    ModelChangeEvent "('x \<times> 'a list) list"
  | MoveEvent int int int
  | OutputEvent int "'a list"
  | OutputItemEvent int string "'a list" bool
  | ChangeCellLanguageEvent 'x
  | ChangeCellContentEvent 'x
  | ChangeCellMetadataEvent 'x
  | ChangeCellInternalMetadataEvent 'x
  | ChangeDocumentMetadataEvent 'md
  | InitializeEvent 'x
  | UnknownEvent 'x

fun kind :: "('a, 'x, 'md) NotebookContentChangedEvent \<Rightarrow> NotebookCellsChangeType" where
  "kind (ModelChangeEvent changes) = ModelChange"
| "kind (MoveEvent index len newIdx) = Move"
| "kind (OutputEvent index outputs) = Output"
| "kind (OutputItemEvent index outputId outputItems appnd) = OutputItem"
| "kind (ChangeCellLanguageEvent e) = ChangeCellLanguage"
| "kind (ChangeCellContentEvent e) = ChangeCellContent"
| "kind (ChangeCellMetadataEvent e) = ChangeCellMetadata"
| "kind (ChangeCellInternalMetadataEvent e) = ChangeCellInternalMetadata"
| "kind (ChangeDocumentMetadataEvent metadata) = ChangeDocumentMetadata"
| "kind (InitializeEvent e) = Initialize"
| "kind (UnknownEvent e) = Unknown"

text \<open>
  The wire events (\<^verbatim>\<open>NotebookRawContentEventDto\<close>), over DTOs of type \<open>'b\<close>: the nine
  object shapes that the listener builds.
\<close>

datatype ('b, 'x, 'md) NotebookRawContentEventDto =
    ModelChangeDto "('x \<times> 'b list) list"
  | MoveDto int int int
  | OutputDto int "'b list"
  | OutputItemDto int string "'b list" bool
  | ChangeCellLanguageDto 'x
  | ChangeCellContentDto 'x
  | ChangeCellMetadataDto 'x
  | ChangeCellInternalMetadataDto 'x
  | ChangeDocumentMetadataDto 'md

fun dto_kind :: "('b, 'x, 'md) NotebookRawContentEventDto \<Rightarrow> NotebookCellsChangeType" where
  "dto_kind (ModelChangeDto changes) = ModelChange"
| "dto_kind (MoveDto index len newIdx) = Move"
| "dto_kind (OutputDto index outputs) = Output"
| "dto_kind (OutputItemDto index outputId outputItems appnd) = OutputItem"
| "dto_kind (ChangeCellLanguageDto e) = ChangeCellLanguage"
| "dto_kind (ChangeCellContentDto e) = ChangeCellContent"
| "dto_kind (ChangeCellMetadataDto e) = ChangeCellMetadata"
| "dto_kind (ChangeCellInternalMetadataDto e) = ChangeCellInternalMetadata"
| "dto_kind (ChangeDocumentMetadataDto metadata) = ChangeDocumentMetadata"

record ('b, 'x, 'md) NotebookCellsChangedEventDto =
  versionId :: nat
  rawEvents :: "('b, 'x, 'md) NotebookRawContentEventDto list"

text \<open>
  The namespace \<^verbatim>\<open>NotebookDto\<close> (notebook-dto.ts, not among the source files): its
  three converters are parameters.
\<close>

record ('a, 'b) NotebookDto =
  toNotebookCellDto :: "'a \<Rightarrow> 'b"
  toNotebookOutputDto :: "'a \<Rightarrow> 'b"
  toNotebookOutputItemDto :: "'a \<Rightarrow> 'b"

text \<open>What the listener reads of a \<^verbatim>\<open>NotebookModel\<close>.\<close>

record ('u, 'md) NotebookModel =
  nb_uri :: 'u
  isDirty :: bool
  metadata :: 'md

text \<open>
  The body of the loop: the \<^verbatim>\<open>switch\<close> on \<^verbatim>\<open>e.kind\<close>.  Each \<^verbatim>\<open>case\<close> pushes one wire
  event onto \<^verbatim>\<open>eventDto.rawEvents\<close>; there is no \<^verbatim>\<open>default\<close>, so for any other kind the
  statement does nothing.
\<close>

fun push_rawEvent ::
  "('a, 'b) NotebookDto \<Rightarrow> ('b, 'x, 'md) NotebookCellsChangedEventDto \<Rightarrow>
     ('a, 'x, 'md) NotebookContentChangedEvent \<Rightarrow> ('b, 'x, 'md) NotebookCellsChangedEventDto" where
  "push_rawEvent D eventDto (ModelChangeEvent changes) =
     eventDto\<lparr>rawEvents := rawEvents eventDto @
       [ModelChangeDto (map (\<lambda>(diff, newItems). (diff, map (toNotebookCellDto D) newItems)) changes)]\<rparr>"
| "push_rawEvent D eventDto (MoveEvent index len newIdx) =
     eventDto\<lparr>rawEvents := rawEvents eventDto @ [MoveDto index len newIdx]\<rparr>"
| "push_rawEvent D eventDto (OutputEvent index outputs) =
     eventDto\<lparr>rawEvents := rawEvents eventDto @
       [OutputDto index (map (toNotebookOutputDto D) outputs)]\<rparr>"
| "push_rawEvent D eventDto (OutputItemEvent index outputId outputItems appnd) =
     eventDto\<lparr>rawEvents := rawEvents eventDto @
       [OutputItemDto index outputId (map (toNotebookOutputItemDto D) outputItems) appnd]\<rparr>"
| "push_rawEvent D eventDto (ChangeCellLanguageEvent e) =
     eventDto\<lparr>rawEvents := rawEvents eventDto @ [ChangeCellLanguageDto e]\<rparr>"
| "push_rawEvent D eventDto (ChangeCellContentEvent e) =
     eventDto\<lparr>rawEvents := rawEvents eventDto @ [ChangeCellContentDto e]\<rparr>"
| "push_rawEvent D eventDto (ChangeCellMetadataEvent e) =
     eventDto\<lparr>rawEvents := rawEvents eventDto @ [ChangeCellMetadataDto e]\<rparr>"
| "push_rawEvent D eventDto (ChangeCellInternalMetadataEvent e) =
     eventDto\<lparr>rawEvents := rawEvents eventDto @ [ChangeCellInternalMetadataDto e]\<rparr>"
| "push_rawEvent D eventDto (ChangeDocumentMetadataEvent md) =
     eventDto\<lparr>rawEvents := rawEvents eventDto @ [ChangeDocumentMetadataDto md]\<rparr>"
| "push_rawEvent D eventDto (InitializeEvent e) = eventDto"
| "push_rawEvent D eventDto (UnknownEvent e) = eventDto"

text \<open>
  The wire representation of a single event in the spec's words, to compare the loop
  with: "range/item diffs for structural changes, index/length/target for moves, output
  and output-item payloads for output changes, raw pass-through for simple
  metadata/content/language changes", and the metadata of a document-metadata change.
  The wire format has no representation of an \<^verbatim>\<open>Initialize\<close> or \<^verbatim>\<open>Unknown\<close> event.
\<close>

fun spec_wire_event ::
  "('a, 'b) NotebookDto \<Rightarrow> ('a, 'x, 'md) NotebookContentChangedEvent \<Rightarrow>
     ('b, 'x, 'md) NotebookRawContentEventDto option" where
  "spec_wire_event D (ModelChangeEvent changes) =
     Some (ModelChangeDto
       (map (\<lambda>(diff, newItems). (diff, map (toNotebookCellDto D) newItems)) changes))"
| "spec_wire_event D (MoveEvent index len newIdx) = Some (MoveDto index len newIdx)"
| "spec_wire_event D (OutputEvent index outputs) =
     Some (OutputDto index (map (toNotebookOutputDto D) outputs))"
| "spec_wire_event D (OutputItemEvent index outputId outputItems appnd) =
     Some (OutputItemDto index outputId (map (toNotebookOutputItemDto D) outputItems) appnd)"
| "spec_wire_event D (ChangeCellLanguageEvent e) = Some (ChangeCellLanguageDto e)"
| "spec_wire_event D (ChangeCellContentEvent e) = Some (ChangeCellContentDto e)"
| "spec_wire_event D (ChangeCellMetadataEvent e) = Some (ChangeCellMetadataDto e)"
| "spec_wire_event D (ChangeCellInternalMetadataEvent e) = Some (ChangeCellInternalMetadataDto e)"
| "spec_wire_event D (ChangeDocumentMetadataEvent md) = Some (ChangeDocumentMetadataDto md)"
| "spec_wire_event D (InitializeEvent e) = None"
| "spec_wire_event D (UnknownEvent e) = None"

text \<open>The loop \<^verbatim>\<open>for (const e of events)\<close>.\<close>

fun push_rawEvents ::
  "('a, 'b) NotebookDto \<Rightarrow> ('b, 'x, 'md) NotebookCellsChangedEventDto \<Rightarrow>
     ('a, 'x, 'md) NotebookContentChangedEvent list \<Rightarrow> ('b, 'x, 'md) NotebookCellsChangedEventDto" where
  "push_rawEvents D eventDto [] = eventDto"
| "push_rawEvents D eventDto (e # events) = push_rawEvents D (push_rawEvent D eventDto e) events"

text \<open>
  The call \<^verbatim>\<open>proxy.$acceptModelChanged(uri, eventDto, isDirty, metadata?)\<close>; an absent
  last argument is \<open>None\<close>.
\<close>

datatype ('b, 'x, 'md) model_changed_call =
  AcceptModelChanged UriComponents "('b, 'x, 'md) NotebookCellsChangedEventDto" bool "'md option"

text \<open>
  The other calls \<^verbatim>\<open>NotebookDocumentsMainImpl\<close> makes: on the plugin-side proxy, on the
  model resolver service, and on the reference (of type \<open>'r\<close>) that the service returns.
\<close>

datatype ('u, 'r) notebook_call =
    AcceptDirtyStateChanged UriComponents bool
  | ResolveUntitledResource string
  | ResolveNotebook 'u
  | SaveRef 'r
  | DisposeRef 'r

text \<open>The listener that \<^verbatim>\<open>handleNotebooksAdded\<close> installs on a notebook.\<close>

definition onDidChangeContent_listener ::
  "'u URI_class \<Rightarrow> ('a, 'b) NotebookDto \<Rightarrow> ('u, 'md) NotebookModel \<Rightarrow>
     ('a, 'x, 'md) NotebookContentChangedEvent list \<Rightarrow> ('b, 'x, 'md) model_changed_call" where
  "onDidChangeContent_listener U D notebook events =
     (let eventDto = push_rawEvents D \<lparr>versionId = 1, rawEvents = []\<rparr> events;
          hasDocumentMetadataChangeEvent = find (\<lambda>e. kind e = ChangeDocumentMetadata) events
      in AcceptModelChanged
           (toComponents U (nb_uri notebook))
           eventDto
           (isDirty notebook)
           (case hasDocumentMetadataChangeEvent of
              Some e \<Rightarrow> Some (metadata notebook)
            | None \<Rightarrow> None))"

subsection \<open>The listener map\<close>

text \<open>
  \<^verbatim>\<open>documentEventListenersMapping\<close>: from a string key to the listener set, which is
  determined by the notebook whose change listener it holds.
\<close>

record ('u, 'md) NotebookDocumentsMainImpl =
  documentEventListenersMapping :: "string \<rightharpoonup> ('u, 'md) NotebookModel"

fun handleNotebooksAdded ::
  "'u URI_class \<Rightarrow> ('u, 'md) NotebookModel list \<Rightarrow> ('u, 'md) NotebookDocumentsMainImpl \<Rightarrow>
     ('u, 'md) NotebookDocumentsMainImpl" where
  "handleNotebooksAdded U [] this = this"
| "handleNotebooksAdded U (notebook # notebooks) this =
     handleNotebooksAdded U notebooks
       (this\<lparr>documentEventListenersMapping :=
          (documentEventListenersMapping this)(uri_toString U (nb_uri notebook) \<mapsto> notebook)\<rparr>)"

text \<open>
  \<^verbatim>\<open>handleNotebooksRemoved\<close>.  Its argument is a list of \<^verbatim>\<open>UriComponents\<close>, and the key
  is \<^verbatim>\<open>uri.toString()\<close> of such a value; that method is the first parameter.  The
  result is the object afterwards and the listener sets on which \<^verbatim>\<open>dispose()\<close> was
  called, in order.
\<close>

fun handleNotebooksRemoved ::
  "(UriComponents \<Rightarrow> string) \<Rightarrow> UriComponents list \<Rightarrow> ('u, 'md) NotebookDocumentsMainImpl \<Rightarrow>
     ('u, 'md) NotebookDocumentsMainImpl \<times> ('u, 'md) NotebookModel list" where
  "handleNotebooksRemoved toString [] this = (this, [])"
| "handleNotebooksRemoved toString (uri # uris) this =
     (let disposed1 = (case documentEventListenersMapping this (toString uri) of
                         Some listeners \<Rightarrow> [listeners]
                       | None \<Rightarrow> []);
          this1 = this\<lparr>documentEventListenersMapping :=
                    snd (map_delete (documentEventListenersMapping this) (toString uri))\<rparr>;
          (this2, disposed2) = handleNotebooksRemoved toString uris this1
      in (this2, disposed1 @ disposed2))"

subsection \<open>Create, open, save\<close>

text \<open>
  The resolver service is not among the source files: what its promises settle to is
  an argument (\<open>Inl\<close> a rejection).  A reference is a value of type \<open>'r\<close> with its URI.
\<close>

definition tryCreateNotebook ::
  "'u URI_class \<Rightarrow> ('r \<Rightarrow> 'u) \<Rightarrow> string \<Rightarrow> 'e + 'r \<Rightarrow>
     ('e + UriComponents) \<times> ('u, 'r) notebook_call list" where
  "tryCreateNotebook U ref_uri viewType resolved =
     (case resolved of
        Inl e \<Rightarrow> (Inl e, [ResolveUntitledResource viewType])
      | Inr ref \<Rightarrow>
          (Inr (toComponents U (ref_uri ref)),
           [ResolveUntitledResource viewType,
            AcceptDirtyStateChanged (toComponents U (ref_uri ref)) True]))"

definition tryOpenNotebook ::
  "'u URI_class \<Rightarrow> UriComponents \<Rightarrow>
     ('e + UriComponents) \<times> ('u, 'r) notebook_call list" where
  "tryOpenNotebook U uriComponents =
     (let uri = fromComponents U uriComponents in (Inr (toComponents U uri), []))"

definition trySaveNotebook ::
  "'u URI_class \<Rightarrow> UriComponents \<Rightarrow> 'e + 'r \<Rightarrow> 'e + unit \<Rightarrow>
     ('e + bool) \<times> ('u, 'r) notebook_call list" where
  "trySaveNotebook U uriComponents resolved saved =
     (let uri = fromComponents U uriComponents in
      case resolved of
        Inl e \<Rightarrow> (Inl e, [ResolveNotebook uri])
      | Inr ref \<Rightarrow>
         (case saved of
            Inl e \<Rightarrow> (Inl e, [ResolveNotebook uri, SaveRef ref])
          | Inr u \<Rightarrow> (Inr True, [ResolveNotebook uri, SaveRef ref, DisposeRef ref])))"

text \<open>Whether a call goes to the notebook model resolver service.\<close>

fun is_resolver_call :: "('u, 'r) notebook_call \<Rightarrow> bool" where
  "is_resolver_call (ResolveUntitledResource viewType) = True"
| "is_resolver_call (ResolveNotebook uri) = True"
| "is_resolver_call c = False"

section \<open>notebook-cell-resource-resolver.ts\<close>

record NotebookCellModel =
  handle :: int
  source :: string

record 'u NotebookCellResource =
  resource_uri :: 'u
  cell :: NotebookCellModel

definition NotebookCellResource_readContents :: "'u NotebookCellResource \<Rightarrow> string" where
  "NotebookCellResource_readContents r = source (cell r)"

text \<open>
  The collaborators of \<^verbatim>\<open>NotebookCellResourceResolver.resolve\<close> that are declared
  elsewhere: the constant \<^verbatim>\<open>CellUri.scheme\<close>, \<^verbatim>\<open>CellUri.parse\<close> (which yields the
  notebook's URI and the cell's handle, or \<^verbatim>\<open>undefined\<close>), and
  \<^verbatim>\<open>notebookService.getNotebookEditorModel\<close> (which yields the notebook's cells, or
  \<^verbatim>\<open>undefined\<close>).
\<close>

record 'u CellResolverEnv =
  CellUri_scheme :: string
  CellUri_parse :: "'u \<Rightarrow> ('u \<times> int) option"
  getNotebookEditorModel :: "'u \<Rightarrow> NotebookCellModel list option"

definition NotebookCellResourceResolver_resolve ::
  "'u URI_class \<Rightarrow> 'u CellResolverEnv \<Rightarrow> 'u \<Rightarrow> error + 'u NotebookCellResource" where
  "NotebookCellResourceResolver_resolve U env uri =
     (if uri_scheme U uri \<noteq> CellUri_scheme env then Inl (CannotResolveCellUri (uri_scheme U uri))
      else
        (case CellUri_parse env uri of
           None \<Rightarrow> Inl (CantParseUri (uri_toString U uri))
         | Some (parsed_notebook, parsed_handle) \<Rightarrow>
            (case getNotebookEditorModel env parsed_notebook of
               None \<Rightarrow> Inl (NoNotebookFound (uri_toString U parsed_notebook))
             | Some cells \<Rightarrow>
                (case find (\<lambda>cell. handle cell = parsed_handle) cells of
                   None \<Rightarrow> Inl (NoCellFound parsed_handle (uri_toString U parsed_notebook))
                 | Some notebookCellModel \<Rightarrow>
                     Inr \<lparr>resource_uri = uri, cell = notebookCellModel\<rparr>))))"

section \<open>Properties of TextContentResource\<close>

lemma readContents_cached:
  "truthy (cache r) \<Longrightarrow> readContents p r = (cache r, [], r\<lparr>cache := Undefined\<rparr>)"
  by (simp add: readContents_def)

lemma readContents_remote:
  "\<not> truthy (cache r) \<Longrightarrow>
   readContents p r = (nullish_coalesce (p (res_uri r)) (Str []), [res_uri r], r)"
  by (simp add: readContents_def)

lemma truthy_is_Str: "truthy v \<Longrightarrow> \<exists>s. v = Str s \<and> s \<noteq> []"
  by (cases v) simp_all

lemma nullish_coalesce_Str: "\<exists>s. nullish_coalesce v (Str d) = Str s"
  by (cases v) simp_all

text \<open>
  Claim C10.  \<^verbatim>\<open>readContents\<close> always resolves to a string, never to \<^verbatim>\<open>undefined\<close> or
  \<^verbatim>\<open>null\<close>; and when the cache holds nothing usable and the remote
  \<^verbatim>\<open>$provideTextDocumentContent\<close> yields \<^verbatim>\<open>null\<close> or \<^verbatim>\<open>undefined\<close>, it resolves to the
  empty string.
\<close>

theorem readContents_never_undefined:
  "(\<exists>s. fst (readContents p r) = Str s) \<and>
   (\<not> truthy (cache r) \<and> (p (res_uri r) = Null \<or> p (res_uri r) = Undefined)
      \<longrightarrow> fst (readContents p r) = Str [])"
proof (cases "truthy (cache r)")
  case True
  then show ?thesis using truthy_is_Str [of "cache r"] by (auto simp: readContents_cached)
next
  case False
  then show ?thesis using nullish_coalesce_Str [of "p (res_uri r)" "[]"]
    by (auto simp: readContents_remote)
qed

text \<open>The empty cache and a remote side that answers \<^verbatim>\<open>null\<close>.\<close>

theorem readContents_never_undefined_witness:
  "\<not> truthy (cache \<lparr>res_uri = ''mem:/a'', cache = Undefined, fired = 0\<rparr>) \<and>
   fst (readContents (\<lambda>u. Null) \<lparr>res_uri = ''mem:/a'', cache = Undefined, fired = 0\<rparr>) = Str []"
  using readContents_never_undefined
    [of "\<lambda>u. Null" "\<lparr>res_uri = ''mem:/a'', cache = Undefined, fired = 0\<rparr>"]
  by simp

text \<open>
  Claim C3, as stated, fails for the empty string: \<^verbatim>\<open>if (this.cache)\<close> is a truthiness
  test, so after \<^verbatim>\<open>setContent('')\<close> the next read takes the remote branch and returns
  what the remote side provides.
\<close>

theorem setContent_empty_counterexample:
  "fst (readContents (\<lambda>u. Str ''remote'')
          (setContent [] \<lparr>res_uri = ''mem:/a'', cache = Undefined, fired = 0\<rparr>)) \<noteq> Str []"
  by (simp add: readContents_def setContent_def)

text \<open>
  Claim C3, amended.  For every non-empty string \<open>s\<close>, the first \<^verbatim>\<open>readContents\<close> after
  \<^verbatim>\<open>setContent(s)\<close> returns exactly \<open>s\<close> without calling the proxy and clears the cache,
  and a second \<^verbatim>\<open>readContents\<close> with no \<^verbatim>\<open>setContent\<close> in between calls the proxy and
  returns what it provides (the empty string when that is \<^verbatim>\<open>null\<close> or \<^verbatim>\<open>undefined\<close>).
  After \<^verbatim>\<open>setContent('')\<close> already the first read goes to the proxy, and the cache
  is left as it is.
\<close>

theorem setContent_then_readContents:
  "(s \<noteq> [] \<longrightarrow>
      readContents p (setContent s r) = (Str s, [], (setContent s r)\<lparr>cache := Undefined\<rparr>) \<and>
      readContents p' ((setContent s r)\<lparr>cache := Undefined\<rparr>) =
        (nullish_coalesce (p' (res_uri r)) (Str []), [res_uri r], (setContent s r)\<lparr>cache := Undefined\<rparr>)) \<and>
   readContents p (setContent [] r) =
     (nullish_coalesce (p (res_uri r)) (Str []), [res_uri r], setContent [] r)"
  by (simp add: readContents_def setContent_def)

text \<open>The content \<^verbatim>\<open>'abc'\<close> set on a fresh resource, then read twice.\<close>

theorem setContent_then_readContents_witness:
  "''abc'' \<noteq> [] \<and>
   readContents (\<lambda>u. Str ''remote'')
     (setContent ''abc'' \<lparr>res_uri = ''mem:/a'', cache = Undefined, fired = 0\<rparr>) =
     (Str ''abc'', [], \<lparr>res_uri = ''mem:/a'', cache = Undefined, fired = 1\<rparr>) \<and>
   readContents (\<lambda>u. Str ''remote'') \<lparr>res_uri = ''mem:/a'', cache = Undefined, fired = 1\<rparr> =
     (Str ''remote'', [''mem:/a''], \<lparr>res_uri = ''mem:/a'', cache = Undefined, fired = 1\<rparr>)"
  using setContent_then_readContents
    [of "''abc''" "\<lambda>u. Str ''remote''" "\<lparr>res_uri = ''mem:/a'', cache = Undefined, fired = 0\<rparr>"
        "\<lambda>u. Str ''remote''"]
  by (simp add: setContent_def)

section \<open>Properties of TextContentResourceResolver\<close>

lemma map_delete_absent: "m k = None \<Longrightarrow> map_delete m k = (False, m)"
  by (simp add: map_delete_def fun_eq_iff)

lemma registerContentProvider_present:
  "providers this s = Some p \<Longrightarrow>
   registerContentProvider s q this = (Inl (ProviderAlreadyRegistered s), this)"
  by (simp add: registerContentProvider_def map_has_def)

lemma registerContentProvider_absent:
  "providers this s = None \<Longrightarrow>
   registerContentProvider s q this = (Inr (), this\<lparr>providers := (providers this)(s \<mapsto> q)\<rparr>)"
  by (simp add: registerContentProvider_def map_has_def)

lemma unregisterContentProvider_absent:
  "providers this s = None \<Longrightarrow>
   unregisterContentProvider s this = (Inl (ProviderNotRegistered s), this)"
  by (simp add: unregisterContentProvider_def map_delete_absent)

lemma unregisterContentProvider_present:
  "providers this s = Some p \<Longrightarrow>
   unregisterContentProvider s this = (Inr (), this\<lparr>providers := (providers this)(s := None)\<rparr>)"
  by (simp add: unregisterContentProvider_def map_delete_def)

lemma registerContentProvider_other:
  "s \<noteq> s' \<Longrightarrow> providers (snd (registerContentProvider s' q this)) s = providers this s"
  by (simp add: registerContentProvider_def)

lemma unregisterContentProvider_None:
  "providers this s = None \<Longrightarrow> providers (snd (unregisterContentProvider s' this)) s = None"
  by (simp add: unregisterContentProvider_def map_delete_def Let_def)

lemma resolver_ops_never_registered:
  "providers this s = None \<Longrightarrow> \<forall>q. RegisterOp s q \<notin> set ops \<Longrightarrow>
   providers (resolver_ops ops this) s = None"
proof (induction ops "this" rule: resolver_ops.induct)
  case (1 this)
  then show ?case by simp
next
  case (2 scheme proxy ops this)
  from "2.prems" have "s \<noteq> scheme" by auto
  with "2.prems" have "providers (snd (registerContentProvider scheme proxy this)) s = None"
    by (simp add: registerContentProvider_other)
  with 2 show ?case by simp
next
  case (3 scheme ops this)
  then show ?case by (simp add: unregisterContentProvider_None)
qed

text \<open>
  Claim C6.  When a scheme is registered, another \<^verbatim>\<open>registerContentProvider\<close> for it
  throws and leaves the resolver as it was, so the first provider stays in the map;
  in particular this holds right after a successful registration.  When a scheme is
  not in the map, \<^verbatim>\<open>unregisterContentProvider\<close> throws (and leaves the resolver as it
  was); that is the case for every scheme that no call has ever registered on a
  newly constructed resolver.
\<close>

theorem registerContentProvider_duplicate_rejected:
  "(providers this s = Some p \<longrightarrow>
      registerContentProvider s q this = (Inl (ProviderAlreadyRegistered s), this)) \<and>
   (fst (registerContentProvider s p this) = Inr () \<longrightarrow>
      registerContentProvider s q (snd (registerContentProvider s p this)) =
        (Inl (ProviderAlreadyRegistered s), snd (registerContentProvider s p this)) \<and>
      providers (snd (registerContentProvider s p this)) s = Some p) \<and>
   (providers this s = None \<longrightarrow>
      unregisterContentProvider s this = (Inl (ProviderNotRegistered s), this)) \<and>
   ((\<forall>q. RegisterOp s q \<notin> set ops) \<longrightarrow>
      fst (unregisterContentProvider s (resolver_ops ops new_TextContentResourceResolver)) =
        Inl (ProviderNotRegistered s))"
proof (intro conjI impI)
  assume "providers this s = Some p"
  then show "registerContentProvider s q this = (Inl (ProviderAlreadyRegistered s), this)"
    by (rule registerContentProvider_present)
next
  assume ok: "fst (registerContentProvider s p this) = Inr ()"
  then have absent: "providers this s = None"
    by (cases "providers this s") (simp_all add: registerContentProvider_present)
  then show "providers (snd (registerContentProvider s p this)) s = Some p"
    by (simp add: registerContentProvider_absent)
  then show "registerContentProvider s q (snd (registerContentProvider s p this)) =
        (Inl (ProviderAlreadyRegistered s), snd (registerContentProvider s p this))"
    by (rule registerContentProvider_present)
next
  assume "providers this s = None"
  then show "unregisterContentProvider s this = (Inl (ProviderNotRegistered s), this)"
    by (rule unregisterContentProvider_absent)
next
  assume never: "\<forall>q. RegisterOp s q \<notin> set ops"
  show "fst (unregisterContentProvider s (resolver_ops ops new_TextContentResourceResolver)) =
        Inl (ProviderNotRegistered s)"
    using resolver_ops_never_registered [OF _ never, of new_TextContentResourceResolver]
    by (simp add: unregisterContentProvider_absent new_TextContentResourceResolver_def)
qed

text \<open>
  The scheme \<^verbatim>\<open>mem\<close> registered twice on a new resolver, and the scheme \<^verbatim>\<open>git\<close>
  unregistered without ever having been registered.
\<close>

theorem registerContentProvider_duplicate_rejected_witness:
  "fst (registerContentProvider ''mem'' (1::nat) new_TextContentResourceResolver) = Inr () \<and>
   fst (registerContentProvider ''mem'' (2::nat)
          (snd (registerContentProvider ''mem'' 1 new_TextContentResourceResolver))) =
     Inl (ProviderAlreadyRegistered ''mem'') \<and>
   providers (snd (registerContentProvider ''mem'' (2::nat)
          (snd (registerContentProvider ''mem'' 1 new_TextContentResourceResolver)))) ''mem'' = Some 1 \<and>
   providers (new_TextContentResourceResolver :: nat TextContentResourceResolver) ''git'' = None \<and>
   fst (unregisterContentProvider ''git'' (new_TextContentResourceResolver :: nat TextContentResourceResolver)) =
     Inl (ProviderNotRegistered ''git'') \<and>
   (\<forall>q. RegisterOp ''git'' q \<notin> set [RegisterOp ''mem'' (1::nat), UnregisterOp ''git'']) \<and>
   fst (unregisterContentProvider ''git''
          (resolver_ops [RegisterOp ''mem'' (1::nat), UnregisterOp ''git''] new_TextContentResourceResolver)) =
     Inl (ProviderNotRegistered ''git'')"
proof -
  have ok: "fst (registerContentProvider ''mem'' (1::nat) new_TextContentResourceResolver) = Inr ()"
    by (simp add: registerContentProvider_def new_TextContentResourceResolver_def map_has_def)
  have absent: "providers (new_TextContentResourceResolver :: nat TextContentResourceResolver) ''git'' = None"
    by (simp add: new_TextContentResourceResolver_def)
  have never: "\<forall>q. RegisterOp ''git'' q \<notin> set [RegisterOp ''mem'' (1::nat), UnregisterOp ''git'']"
    by simp
  show ?thesis
    using registerContentProvider_duplicate_rejected
      [of "new_TextContentResourceResolver :: nat TextContentResourceResolver" "''mem''" 1 2
          "[RegisterOp ''mem'' (1::nat), UnregisterOp ''git'']"]
      registerContentProvider_duplicate_rejected
      [of "new_TextContentResourceResolver :: nat TextContentResourceResolver" "''git''" 1 2
          "[RegisterOp ''mem'' (1::nat), UnregisterOp ''git'']"]
      ok absent never
    by simp
qed

section \<open>Properties of the workspace roots\<close>

lemma some_from_iff: "some_from p k xs \<longleftrightarrow> (\<exists>i<length xs. p (xs ! i) (k + i))"
proof (induction xs arbitrary: k)
  case Nil
  then show ?case by simp
next
  case (Cons x xs)
  then show ?case by (simp add: Ex_less_Suc2)
qed

lemma isAnyRootChanged_iff:
  assumes "roots this = Some old"
  shows "isAnyRootChanged this new \<longleftrightarrow>
         (length old \<noteq> length new \<or> (\<exists>i. i < length old \<and> i < length new \<and> old ! i \<noteq> new ! i))"
proof (cases "length old = length new")
  case True
  then show ?thesis using assms
    by (auto simp: isAnyRootChanged_def some_from_iff index_at_def)
next
  case False
  then show ?thesis using assms by (simp add: isAnyRootChanged_def)
qed

text \<open>
  Claim C5.  With a stored root list \<open>old\<close>, \<^verbatim>\<open>processWorkspaceFoldersChanged(new)\<close> sends
  \<^verbatim>\<open>$onWorkspaceFoldersChanged\<close> if and only if \<open>new\<close> differs from \<open>old\<close> in length or
  at some position; in that case the stored roots become \<open>new\<close>.  When the two lists
  agree in length and at every position, nothing is sent and the object is unchanged.
\<close>

theorem processWorkspaceFoldersChanged_iff:
  assumes "roots this = Some old"
  shows "(OnWorkspaceFoldersChanged new \<in> set (snd (processWorkspaceFoldersChanged new d this))
            \<longleftrightarrow> (length old \<noteq> length new \<or>
                 (\<exists>i. i < length old \<and> i < length new \<and> old ! i \<noteq> new ! i))) \<and>
         (length old \<noteq> length new \<or> (\<exists>i. i < length old \<and> i < length new \<and> old ! i \<noteq> new ! i)
            \<longrightarrow> roots (fst (processWorkspaceFoldersChanged new d this)) = Some new) \<and>
         (length old = length new \<and> (\<forall>i<length old. old ! i = new ! i)
            \<longrightarrow> processWorkspaceFoldersChanged new d this = (this, []))"
proof (cases "isAnyRootChanged this new")
  case True
  with isAnyRootChanged_iff [OF assms, of new] show ?thesis
    by (auto simp: processWorkspaceFoldersChanged_def)
next
  case False
  with isAnyRootChanged_iff [OF assms, of new] show ?thesis
    by (auto simp: processWorkspaceFoldersChanged_def)
qed

text \<open>
  Stored roots \<^verbatim>\<open>[a, b]\<close>: the list \<^verbatim>\<open>[a, c]\<close> is notified and stored, the list
  \<^verbatim>\<open>[a, b]\<close> is suppressed.
\<close>

theorem processWorkspaceFoldersChanged_iff_witness:
  "roots ((new_WorkspaceMainImpl () :: (unit, unit) WorkspaceMainImpl)
            \<lparr>roots := Some [''file:///a'', ''file:///b'']\<rparr>) = Some [''file:///a'', ''file:///b''] \<and>
   processWorkspaceFoldersChanged [''file:///a'', ''file:///c''] (None :: unit option)
     ((new_WorkspaceMainImpl () :: (unit, unit) WorkspaceMainImpl)
        \<lparr>roots := Some [''file:///a'', ''file:///b'']\<rparr>) =
     ((new_WorkspaceMainImpl ())\<lparr>roots := Some [''file:///a'', ''file:///c'']\<rparr>,
      [OnWorkspaceFoldersChanged [''file:///a'', ''file:///c'']]) \<and>
   processWorkspaceFoldersChanged [''file:///a'', ''file:///b''] (None :: unit option)
     ((new_WorkspaceMainImpl () :: (unit, unit) WorkspaceMainImpl)
        \<lparr>roots := Some [''file:///a'', ''file:///b'']\<rparr>) =
     ((new_WorkspaceMainImpl ())\<lparr>roots := Some [''file:///a'', ''file:///b'']\<rparr>, [])"
proof -
  let ?w = "(new_WorkspaceMainImpl () :: (unit, unit) WorkspaceMainImpl)
              \<lparr>roots := Some [''file:///a'', ''file:///b'']\<rparr>"
  have h: "roots ?w = Some [''file:///a'', ''file:///b'']" by simp
  have changed: "\<exists>i. i < length [''file:///a'', ''file:///b''] \<and> i < length [''file:///a'', ''file:///c''] \<and>
                  [''file:///a'', ''file:///b''] ! i \<noteq> [''file:///a'', ''file:///c''] ! i"
    by (rule exI [of _ 1]) simp
  have same: "\<forall>i<length [''file:///a'', ''file:///b''].
                [''file:///a'', ''file:///b''] ! i = [''file:///a'', ''file:///b''] ! i"
    by simp
  from processWorkspaceFoldersChanged_iff [OF h, of "[''file:///a'', ''file:///c'']" "None :: unit option"] changed
  have 1: "OnWorkspaceFoldersChanged [''file:///a'', ''file:///c''] \<in>
             set (snd (processWorkspaceFoldersChanged [''file:///a'', ''file:///c''] (None :: unit option) ?w))"
    and 2: "roots (fst (processWorkspaceFoldersChanged [''file:///a'', ''file:///c''] (None :: unit option) ?w)) =
             Some [''file:///a'', ''file:///c'']"
    by blast+
  from processWorkspaceFoldersChanged_iff [OF h, of "[''file:///a'', ''file:///b'']" "None :: unit option"] same
  have 3: "processWorkspaceFoldersChanged [''file:///a'', ''file:///b''] (None :: unit option) ?w = (?w, [])"
    by simp
  have 4: "processWorkspaceFoldersChanged [''file:///a'', ''file:///c''] (None :: unit option) ?w =
     ((new_WorkspaceMainImpl ())\<lparr>roots := Some [''file:///a'', ''file:///c'']\<rparr>,
      [OnWorkspaceFoldersChanged [''file:///a'', ''file:///c'']])"
    using 1 2 by (auto simp: processWorkspaceFoldersChanged_def split: if_splits)
  from h 3 4 show ?thesis by simp
qed


section \<open>Properties of the notebook change listener\<close>

lemma push_rawEvent_rawEvents:
  "rawEvents (push_rawEvent D eventDto e) =
     rawEvents eventDto @ (case spec_wire_event D e of None \<Rightarrow> [] | Some w \<Rightarrow> [w])"
  by (cases e) simp_all

lemma push_rawEvent_versionId: "versionId (push_rawEvent D eventDto e) = versionId eventDto"
  by (cases e) simp_all

lemma push_rawEvents_rawEvents:
  "rawEvents (push_rawEvents D eventDto events) =
     rawEvents eventDto @ List.map_filter (spec_wire_event D) events"
proof (induction events arbitrary: eventDto)
  case Nil
  then show ?case by (simp add: List.map_filter_simps)
next
  case (Cons e events)
  then show ?case
    by (cases "spec_wire_event D e") (simp_all add: push_rawEvent_rawEvents List.map_filter_simps)
qed

lemma push_rawEvents_versionId: "versionId (push_rawEvents D eventDto events) = versionId eventDto"
  by (induction events arbitrary: eventDto) (simp_all add: push_rawEvent_versionId)

lemma spec_wire_event_None_iff: "spec_wire_event D e = None \<longleftrightarrow> \<not> has_case (kind e)"
  by (cases e) simp_all

lemma dto_kind_spec_wire_event: "spec_wire_event D e = Some w \<Longrightarrow> dto_kind w = kind e"
  by (cases e) auto

lemma dto_kinds_map_filter:
  "map dto_kind (List.map_filter (spec_wire_event D) events) = filter has_case (map kind events)"
proof (induction events)
  case Nil
  then show ?case by (simp add: List.map_filter_simps)
next
  case (Cons e events)
  show ?case
  proof (cases "spec_wire_event D e")
    case None
    then have "\<not> has_case (kind e)" by (simp add: spec_wire_event_None_iff)
    with None Cons show ?thesis by (simp add: List.map_filter_simps)
  next
    case (Some w)
    then have "has_case (kind e)" using spec_wire_event_None_iff [of D e] by simp
    with Some Cons dto_kind_spec_wire_event [OF Some] show ?thesis
      by (simp add: List.map_filter_simps)
  qed
qed

lemma length_map_filter_has_case:
  "length (List.map_filter (spec_wire_event D) events) =
     length (filter (\<lambda>e. has_case (kind e)) events)"
proof -
  have "length (List.map_filter (spec_wire_event D) events) =
          length (map dto_kind (List.map_filter (spec_wire_event D) events))"
    by simp
  also have "\<dots> = length (filter has_case (map kind events))"
    by (simp only: dto_kinds_map_filter)
  also have "\<dots> = length (filter (\<lambda>e. has_case (kind e)) events)"
    by (simp add: filter_map comp_def)
  finally show ?thesis .
qed

text \<open>
  Claim C2, as stated, fails for a batch that holds an event of kind \<^verbatim>\<open>Initialize\<close> or
  \<^verbatim>\<open>Unknown\<close>: the \<^verbatim>\<open>switch\<close> has no \<^verbatim>\<open>case\<close> for it and no \<^verbatim>\<open>default\<close>, so the event
  is left out of the DTO.  A batch of four events, two of them of these kinds, gives
  two wire events.
\<close>

theorem onDidChangeContent_listener_counterexample:
  "onDidChangeContent_listener string_URI
     \<lparr>toNotebookCellDto = Suc, toNotebookOutputDto = Suc, toNotebookOutputItemDto = Suc\<rparr>
     \<lparr>nb_uri = ''file:/nb.ipynb'', isDirty = True, metadata = ''current''\<rparr>
     [InitializeEvent (), MoveEvent 0 1 2, UnknownEvent (), ChangeDocumentMetadataEvent ''meta''
        :: (nat, unit, string) NotebookContentChangedEvent] =
   AcceptModelChanged \<lparr>scheme = ''file'', path = ''/nb.ipynb'', query = [], fragment = []\<rparr>
     \<lparr>versionId = 1, rawEvents = [MoveDto 0 1 2, ChangeDocumentMetadataDto ''meta'']\<rparr>
     True (Some ''current'') \<and>
   length [MoveDto 0 1 2, ChangeDocumentMetadataDto ''meta''
             :: (nat, unit, string) NotebookRawContentEventDto] \<noteq>
   length [InitializeEvent (), MoveEvent 0 1 2, UnknownEvent (), ChangeDocumentMetadataEvent ''meta''
             :: (nat, unit, string) NotebookContentChangedEvent]"
  by (simp add: onDidChangeContent_listener_def string_URI_def)

text \<open>
  Claim C2, amended.  For a batch of change events the listener makes one
  \<^verbatim>\<open>$acceptModelChanged\<close> call whose DTO has version 1 and holds, in the order of the
  batch, one wire event for each input event whose kind has a \<^verbatim>\<open>case\<close> in the
  \<^verbatim>\<open>switch\<close>, namely its wire representation, which has its kind; an event of kind
  \<^verbatim>\<open>Initialize\<close> or \<^verbatim>\<open>Unknown\<close> contributes nothing.  So a batch without such events
  gives as many wire events as it has events.  The metadata argument is the
  notebook's current metadata if and only if some event of the batch has kind
  \<^verbatim>\<open>ChangeDocumentMetadata\<close>, and is absent otherwise.
\<close>

theorem onDidChangeContent_listener_dto:
  "\<exists>eventDto md.
     onDidChangeContent_listener U D notebook events =
       AcceptModelChanged (toComponents U (nb_uri notebook)) eventDto (isDirty notebook) md \<and>
     versionId eventDto = 1 \<and>
     rawEvents eventDto = List.map_filter (spec_wire_event D) events \<and>
     map dto_kind (rawEvents eventDto) = filter has_case (map kind events) \<and>
     length (rawEvents eventDto) = length (filter (\<lambda>e. has_case (kind e)) events) \<and>
     ((\<forall>e\<in>set events. has_case (kind e)) \<longrightarrow>
        length (rawEvents eventDto) = length events \<and>
        map dto_kind (rawEvents eventDto) = map kind events) \<and>
     (md = Some (metadata notebook) \<longleftrightarrow> (\<exists>e\<in>set events. kind e = ChangeDocumentMetadata)) \<and>
     (md = None \<longleftrightarrow> \<not> (\<exists>e\<in>set events. kind e = ChangeDocumentMetadata))"
proof -
  let ?dto = "push_rawEvents D \<lparr>versionId = 1, rawEvents = []\<rparr> events"
  have raw: "rawEvents ?dto = List.map_filter (spec_wire_event D) events"
    by (simp add: push_rawEvents_rawEvents)
  have ver: "versionId ?dto = 1"
    by (simp add: push_rawEvents_versionId)
  have kinds: "map dto_kind (rawEvents ?dto) = filter has_case (map kind events)"
    by (simp only: raw dto_kinds_map_filter)
  have len: "length (rawEvents ?dto) = length (filter (\<lambda>e. has_case (kind e)) events)"
    by (simp only: raw length_map_filter_has_case)
  have full: "(\<forall>e\<in>set events. has_case (kind e)) \<longrightarrow>
        length (rawEvents ?dto) = length events \<and>
        map dto_kind (rawEvents ?dto) = map kind events"
  proof
    assume all: "\<forall>e\<in>set events. has_case (kind e)"
    then have f1: "filter (\<lambda>e. has_case (kind e)) events = events" by simp
    from all have f2: "filter has_case (map kind events) = map kind events" by simp
    from f1 f2 len kinds
    show "length (rawEvents ?dto) = length events \<and>
          map dto_kind (rawEvents ?dto) = map kind events"
      by simp
  qed
  show ?thesis
  proof (cases "find (\<lambda>e. kind e = ChangeDocumentMetadata) events")
    case None
    then have no: "\<not> (\<exists>e\<in>set events. kind e = ChangeDocumentMetadata)"
      by (auto simp: find_None_iff)
    have "onDidChangeContent_listener U D notebook events =
       AcceptModelChanged (toComponents U (nb_uri notebook)) ?dto (isDirty notebook) None"
      using None by (simp add: onDidChangeContent_listener_def)
    with ver raw kinds len full no show ?thesis by blast
  next
    case (Some e)
    then have yes: "\<exists>e\<in>set events. kind e = ChangeDocumentMetadata"
      by (auto simp: find_Some_iff)
    have "onDidChangeContent_listener U D notebook events =
       AcceptModelChanged (toComponents U (nb_uri notebook)) ?dto (isDirty notebook)
         (Some (metadata notebook))"
      using Some by (simp add: onDidChangeContent_listener_def)
    with ver raw kinds len full yes show ?thesis by blast
  qed
qed

text \<open>
  A batch of a move, a document-metadata change and an output change, whose kinds all
  have a \<^verbatim>\<open>case\<close>, and a batch of a single move.
\<close>

theorem onDidChangeContent_listener_dto_witness:
  "list_all (\<lambda>e. has_case (kind e))
     [MoveEvent 0 1 2, ChangeDocumentMetadataEvent ''meta'', OutputEvent 0 [1::nat, 2]
        :: (nat, unit, string) NotebookContentChangedEvent] \<and>
   (\<exists>e\<in>set [MoveEvent 0 1 2, ChangeDocumentMetadataEvent ''meta'', OutputEvent 0 [1::nat, 2]].
      kind (e :: (nat, unit, string) NotebookContentChangedEvent) = ChangeDocumentMetadata) \<and>
   onDidChangeContent_listener string_URI
     \<lparr>toNotebookCellDto = Suc, toNotebookOutputDto = (\<lambda>n. n + 10), toNotebookOutputItemDto = (\<lambda>n. n + 100)\<rparr>
     \<lparr>nb_uri = ''file:/nb.ipynb'', isDirty = True, metadata = ''current''\<rparr>
     [MoveEvent 0 1 2, ChangeDocumentMetadataEvent ''meta'', OutputEvent 0 [1::nat, 2] :: (nat, unit, string) NotebookContentChangedEvent] =
   AcceptModelChanged \<lparr>scheme = ''file'', path = ''/nb.ipynb'', query = [], fragment = []\<rparr>
     \<lparr>versionId = 1, rawEvents = [MoveDto 0 1 2, ChangeDocumentMetadataDto ''meta'', OutputDto 0 [11, 12]]\<rparr>
     True (Some ''current'') \<and>
   \<not> (\<exists>e\<in>set [MoveEvent 0 1 2 :: (nat, unit, string) NotebookContentChangedEvent]. kind e = ChangeDocumentMetadata) \<and>
   onDidChangeContent_listener string_URI
     \<lparr>toNotebookCellDto = Suc, toNotebookOutputDto = (\<lambda>n. n + 10), toNotebookOutputItemDto = (\<lambda>n. n + 100)\<rparr>
     \<lparr>nb_uri = ''file:/nb.ipynb'', isDirty = True, metadata = ''current''\<rparr>
     [MoveEvent 0 1 2 :: (nat, unit, string) NotebookContentChangedEvent] =
   AcceptModelChanged \<lparr>scheme = ''file'', path = ''/nb.ipynb'', query = [], fragment = []\<rparr>
     \<lparr>versionId = 1, rawEvents = [MoveDto 0 1 2]\<rparr> True None"
proof -
  let ?D = "\<lparr>toNotebookCellDto = Suc, toNotebookOutputDto = (\<lambda>n. n + 10), toNotebookOutputItemDto = (\<lambda>n. n + 100)\<rparr>"
  let ?nb = "\<lparr>nb_uri = ''file:/nb.ipynb'', isDirty = True, metadata = ''current''\<rparr>"
  let ?es = "[MoveEvent 0 1 2, ChangeDocumentMetadataEvent ''meta'', OutputEvent 0 [1::nat, 2]] :: (nat, unit, string) NotebookContentChangedEvent list"
  let ?es' = "[MoveEvent 0 1 2] :: (nat, unit, string) NotebookContentChangedEvent list"
  have all: "\<forall>e\<in>set ?es. has_case (kind e)" by simp
  have all': "list_all (\<lambda>e. has_case (kind e)) ?es" by simp
  have some: "\<exists>e\<in>set ?es. kind e = ChangeDocumentMetadata" by simp
  have none: "\<not> (\<exists>e\<in>set ?es'. kind e = ChangeDocumentMetadata)" by simp
  have c: "toComponents string_URI (nb_uri ?nb) = \<lparr>scheme = ''file'', path = ''/nb.ipynb'', query = [], fragment = []\<rparr>"
    by (simp add: string_URI_def)
  from onDidChangeContent_listener_dto [of string_URI ?D ?nb ?es]
  obtain eventDto md where call: "onDidChangeContent_listener string_URI ?D ?nb ?es =
       AcceptModelChanged (toComponents string_URI (nb_uri ?nb)) eventDto (isDirty ?nb) md"
    and v: "versionId eventDto = 1"
    and raw: "rawEvents eventDto = List.map_filter (spec_wire_event ?D) ?es"
    and full: "(\<forall>e\<in>set ?es. has_case (kind e)) \<longrightarrow> length (rawEvents eventDto) = length ?es \<and>
                 map dto_kind (rawEvents eventDto) = map kind ?es"
    and m: "md = Some (metadata ?nb) \<longleftrightarrow> (\<exists>e\<in>set ?es. kind e = ChangeDocumentMetadata)"
    by blast
  from full all have "length (rawEvents eventDto) = length ?es" by blast
  from raw have raw': "rawEvents eventDto = [MoveDto 0 1 2, ChangeDocumentMetadataDto ''meta'', OutputDto 0 [11, 12]]"
    by (simp add: List.map_filter_simps)
  from m some have md: "md = Some ''current''" by simp
  have dto: "eventDto = \<lparr>versionId = 1, rawEvents = [MoveDto 0 1 2, ChangeDocumentMetadataDto ''meta'', OutputDto 0 [11, 12]]\<rparr>"
    using v raw' by (cases eventDto) simp
  from call c dto md
  have 1: "onDidChangeContent_listener string_URI ?D ?nb ?es =
     AcceptModelChanged \<lparr>scheme = ''file'', path = ''/nb.ipynb'', query = [], fragment = []\<rparr>
     \<lparr>versionId = 1, rawEvents = [MoveDto 0 1 2, ChangeDocumentMetadataDto ''meta'', OutputDto 0 [11, 12]]\<rparr>
     True (Some ''current'')"
    by simp
  have 2: "onDidChangeContent_listener string_URI ?D ?nb ?es' =
     AcceptModelChanged \<lparr>scheme = ''file'', path = ''/nb.ipynb'', query = [], fragment = []\<rparr>
     \<lparr>versionId = 1, rawEvents = [MoveDto 0 1 2]\<rparr> True None"
    by (simp add: onDidChangeContent_listener_def string_URI_def)
  from all' some none 1 2 show ?thesis by simp
qed

section \<open>Properties of the notebook cell resolver\<close>

text \<open>
  Claim C9.  \<^verbatim>\<open>NotebookCellResourceResolver.resolve(uri)\<close> throws if and only if the
  URI's scheme is not the cell scheme, or the cell URI cannot be parsed, or there is
  no notebook model for the parsed notebook URI, or that notebook has no cell with the
  parsed handle.  Otherwise it returns a resource for \<open>uri\<close> holding the cell that
  \<^verbatim>\<open>find\<close> yields (the first with that handle), and \<^verbatim>\<open>readContents\<close> of the resource is
  that cell's source text.
\<close>

theorem NotebookCellResourceResolver_resolve_rejects_iff:
  "((\<exists>e. NotebookCellResourceResolver_resolve U env uri = Inl e) \<longleftrightarrow>
      (uri_scheme U uri \<noteq> CellUri_scheme env \<or>
       CellUri_parse env uri = None \<or>
       (\<exists>nb h. CellUri_parse env uri = Some (nb, h) \<and> getNotebookEditorModel env nb = None) \<or>
       (\<exists>nb h cells. CellUri_parse env uri = Some (nb, h) \<and>
          getNotebookEditorModel env nb = Some cells \<and> (\<forall>c\<in>set cells. handle c \<noteq> h)))) \<and>
   (\<forall>r. NotebookCellResourceResolver_resolve U env uri = Inr r \<longrightarrow>
      (\<exists>nb h cells c. CellUri_parse env uri = Some (nb, h) \<and>
          getNotebookEditorModel env nb = Some cells \<and>
          find (\<lambda>cell. handle cell = h) cells = Some c \<and>
          c \<in> set cells \<and> handle c = h \<and>
          r = \<lparr>resource_uri = uri, cell = c\<rparr> \<and>
          NotebookCellResource_readContents r = source c))"
  by (auto simp: NotebookCellResourceResolver_resolve_def NotebookCellResource_readContents_def
        find_None_iff find_Some_iff
      split: option.splits)

text \<open>
  A notebook with two cells: the cell URI with handle 1 resolves to the second cell,
  and a URI with the scheme \<^verbatim>\<open>file\<close> is rejected.
\<close>

theorem NotebookCellResourceResolver_resolve_rejects_iff_witness:
  "NotebookCellResourceResolver_resolve string_URI
     \<lparr>CellUri_scheme = ''vscode-notebook-cell'',
      CellUri_parse = (\<lambda>u. if u = ''vscode-notebook-cell:/nb.ipynb#1'' then Some (''file:/nb.ipynb'', 1) else None),
      getNotebookEditorModel = (\<lambda>u. if u = ''file:/nb.ipynb''
         then Some [\<lparr>handle = 0, source = ''import os''\<rparr>, \<lparr>handle = 1, source = ''print(1)''\<rparr>]
         else None)\<rparr>
     ''vscode-notebook-cell:/nb.ipynb#1'' =
     Inr \<lparr>resource_uri = ''vscode-notebook-cell:/nb.ipynb#1'', cell = \<lparr>handle = 1, source = ''print(1)''\<rparr>\<rparr> \<and>
   NotebookCellResource_readContents
     \<lparr>resource_uri = ''vscode-notebook-cell:/nb.ipynb#1'', cell = \<lparr>handle = 1, source = ''print(1)''\<rparr>\<rparr> =
     ''print(1)'' \<and>
   uri_scheme string_URI ''file:/nb.ipynb'' \<noteq> ''vscode-notebook-cell'' \<and>
   (\<exists>e. NotebookCellResourceResolver_resolve string_URI
     \<lparr>CellUri_scheme = ''vscode-notebook-cell'',
      CellUri_parse = (\<lambda>u. if u = ''vscode-notebook-cell:/nb.ipynb#1'' then Some (''file:/nb.ipynb'', 1) else None),
      getNotebookEditorModel = (\<lambda>u. if u = ''file:/nb.ipynb''
         then Some [\<lparr>handle = 0, source = ''import os''\<rparr>, \<lparr>handle = 1, source = ''print(1)''\<rparr>]
         else None)\<rparr>
     ''file:/nb.ipynb'' = Inl e)"
proof -
  let ?env = "\<lparr>CellUri_scheme = ''vscode-notebook-cell'',
      CellUri_parse = (\<lambda>u. if u = ''vscode-notebook-cell:/nb.ipynb#1'' then Some (''file:/nb.ipynb'', 1) else None),
      getNotebookEditorModel = (\<lambda>u. if u = ''file:/nb.ipynb''
         then Some [\<lparr>handle = 0, source = ''import os''\<rparr>, \<lparr>handle = 1, source = ''print(1)''\<rparr>]
         else None)\<rparr>"
  have sch: "uri_scheme string_URI ''file:/nb.ipynb'' \<noteq> CellUri_scheme ?env"
    by (simp add: string_URI_def)
  have ok: "NotebookCellResourceResolver_resolve string_URI ?env ''vscode-notebook-cell:/nb.ipynb#1'' =
     Inr \<lparr>resource_uri = ''vscode-notebook-cell:/nb.ipynb#1'', cell = \<lparr>handle = 1, source = ''print(1)''\<rparr>\<rparr>"
    by (simp add: NotebookCellResourceResolver_resolve_def string_URI_def)
  from NotebookCellResourceResolver_resolve_rejects_iff [of string_URI ?env "''file:/nb.ipynb''"] sch
  have rej: "\<exists>e. NotebookCellResourceResolver_resolve string_URI ?env ''file:/nb.ipynb'' = Inl e"
    by blast
  from NotebookCellResourceResolver_resolve_rejects_iff [of string_URI ?env "''vscode-notebook-cell:/nb.ipynb#1''"] ok
  have rd: "NotebookCellResource_readContents
     \<lparr>resource_uri = ''vscode-notebook-cell:/nb.ipynb#1'', cell = \<lparr>handle = 1, source = ''print(1)''\<rparr>\<rparr> = ''print(1)''"
    by auto
  from sch ok rej rd show ?thesis by simp
qed

section \<open>Properties of create, open and save\<close>

text \<open>
  Claim C4, as stated, fails twice: \<^verbatim>\<open>$tryOpenNotebook\<close> makes no call to the notebook
  model resolver service, and \<^verbatim>\<open>$trySaveNotebook\<close> returns \<^verbatim>\<open>true\<close>, not a document
  identifier.
\<close>

theorem tryOpenNotebook_counterexample:
  "filter is_resolver_call
     (snd (tryOpenNotebook string_URI
             \<lparr>scheme = ''file'', path = ''/nb.ipynb'', query = [], fragment = []\<rparr>
           :: (unit + UriComponents) \<times> (string, nat) notebook_call list)) = [] \<and>
   fst (trySaveNotebook string_URI
          \<lparr>scheme = ''file'', path = ''/nb.ipynb'', query = [], fragment = []\<rparr>
          (Inr 7) (Inr ()) :: (unit + bool) \<times> (string, nat) notebook_call list) = Inr True"
  by (simp add: tryOpenNotebook_def trySaveNotebook_def)

text \<open>
  Claim C4, amended.  \<^verbatim>\<open>$tryCreateNotebook\<close> asks the resolver service for an untitled
  resource, reports the new document as dirty to the plugin side, and returns the
  components of the resolved reference's URI.  \<^verbatim>\<open>$tryOpenNotebook\<close> calls nothing and
  returns the components of the URI built from its argument.  \<^verbatim>\<open>$trySaveNotebook\<close>
  resolves the URI through the resolver service, saves the reference, disposes it
  after the save has completed, and returns \<^verbatim>\<open>true\<close>.  A rejection by the service or by
  the save is passed on, and nothing is called after it.
\<close>

theorem notebook_create_open_save:
  "tryCreateNotebook U ref_uri viewType (Inr ref) =
     (Inr (toComponents U (ref_uri ref)),
      [ResolveUntitledResource viewType,
       AcceptDirtyStateChanged (toComponents U (ref_uri ref)) True]) \<and>
   tryCreateNotebook U ref_uri viewType (Inl e) = (Inl e, [ResolveUntitledResource viewType]) \<and>
   tryOpenNotebook U uriComponents = (Inr (toComponents U (fromComponents U uriComponents)), []) \<and>
   trySaveNotebook U uriComponents (Inr ref) (Inr ()) =
     (Inr True, [ResolveNotebook (fromComponents U uriComponents), SaveRef ref, DisposeRef ref]) \<and>
   trySaveNotebook U uriComponents (Inr ref) (Inl e) =
     (Inl e, [ResolveNotebook (fromComponents U uriComponents), SaveRef ref]) \<and>
   trySaveNotebook U uriComponents (Inl e) saved =
     (Inl e, [ResolveNotebook (fromComponents U uriComponents)])"
  by (simp add: tryCreateNotebook_def tryOpenNotebook_def trySaveNotebook_def)

section \<open>Properties of the listener map\<close>

lemma handleNotebooksAdded_single:
  "documentEventListenersMapping (handleNotebooksAdded U [notebook] this)
     (uri_toString U (nb_uri notebook)) = Some notebook"
  by simp

lemma handleNotebooksRemoved_matching_key:
  assumes "documentEventListenersMapping this (toString uri) = Some listeners"
  shows "handleNotebooksRemoved toString [uri] this =
           (this\<lparr>documentEventListenersMapping :=
                   (documentEventListenersMapping this)(toString uri := None)\<rparr>, [listeners])"
  using assms by (simp add: map_delete_def)

lemma handleNotebooksRemoved_Object_toString:
  assumes "k \<noteq> ''[object Object]''"
  shows "documentEventListenersMapping (fst (handleNotebooksRemoved Object_toString uris this)) k =
           documentEventListenersMapping this k"
  using assms
  by (induction uris arbitrary: this)
     (simp_all add: map_delete_def Object_toString_def case_prod_beta Let_def)

lemma handleNotebooksRemoved_Object_toString_keeps:
  assumes "uri_toString U (nb_uri notebook) \<noteq> ''[object Object]''"
  shows "documentEventListenersMapping
           (fst (handleNotebooksRemoved Object_toString uris (handleNotebooksAdded U [notebook] this)))
           (uri_toString U (nb_uri notebook)) = Some notebook"
  using handleNotebooksRemoved_Object_toString [OF assms] handleNotebooksAdded_single
  by metis

lemma handleNotebooksRemoved_Object_toString_disposed:
  assumes "documentEventListenersMapping this ''[object Object]'' = None"
  shows "snd (handleNotebooksRemoved Object_toString uris this) = []"
  using assms
  by (induction uris arbitrary: this)
     (simp_all add: map_delete_def Object_toString_def case_prod_beta Let_def)

text \<open>
  Claim C7 does not hold of the code.  \<^verbatim>\<open>handleNotebooksAdded\<close> stores the listener set
  under \<^verbatim>\<open>notebook.uri.toString()\<close>, the string form of a URI, but
  \<^verbatim>\<open>handleNotebooksRemoved\<close> looks up and deletes \<^verbatim>\<open>uri.toString()\<close> of a
  \<^verbatim>\<open>UriComponents\<close> object, which is the same string for every such object.  For the
  notebook \<^verbatim>\<open>file:/nb.ipynb\<close>, added to an empty map and then removed by its
  components, nothing is disposed and the entry is still in the map; by
  \<open>handleNotebooksRemoved_Object_toString_keeps\<close> the same holds of every notebook
  whose URI string is not that one string.  (By
  \<open>handleNotebooksRemoved_matching_key\<close> the entry would be disposed and removed if
  the two keys agreed; \<^verbatim>\<open>$trySaveNotebook\<close> and \<^verbatim>\<open>$tryOpenNotebook\<close> convert their
  \<^verbatim>\<open>UriComponents\<close> with \<^verbatim>\<open>URI.fromComponents\<close> before using them.)
\<close>

theorem handleNotebooksRemoved_keeps_listeners:
  "documentEventListenersMapping
     (handleNotebooksAdded string_URI
        [\<lparr>nb_uri = ''file:/nb.ipynb'', isDirty = False, metadata = ()\<rparr>]
        \<lparr>documentEventListenersMapping = Map.empty\<rparr>) ''file:/nb.ipynb'' =
     Some \<lparr>nb_uri = ''file:/nb.ipynb'', isDirty = False, metadata = ()\<rparr> \<and>
   snd (handleNotebooksRemoved Object_toString
          [toComponents string_URI ''file:/nb.ipynb'']
          (handleNotebooksAdded string_URI
             [\<lparr>nb_uri = ''file:/nb.ipynb'', isDirty = False, metadata = ()\<rparr>]
             \<lparr>documentEventListenersMapping = Map.empty\<rparr>)) = [] \<and>
   documentEventListenersMapping
     (fst (handleNotebooksRemoved Object_toString
          [toComponents string_URI ''file:/nb.ipynb'']
          (handleNotebooksAdded string_URI
             [\<lparr>nb_uri = ''file:/nb.ipynb'', isDirty = False, metadata = ()\<rparr>]
             \<lparr>documentEventListenersMapping = Map.empty\<rparr>))) ''file:/nb.ipynb'' =
     Some \<lparr>nb_uri = ''file:/nb.ipynb'', isDirty = False, metadata = ()\<rparr>"
  by (simp add: string_URI_def Object_toString_def map_delete_def)

section \<open>Properties of the provider registries\<close>

lemma registerTextDocumentContentProvider_present:
  "providers (resourceResolver this) s = Some p \<Longrightarrow>
   registerTextDocumentContentProvider s this = (Inl (ProviderAlreadyRegistered s), this)"
  by (simp add: registerTextDocumentContentProvider_def registerContentProvider_present)

lemma registerTextDocumentContentProvider_registers:
  assumes "fst (registerTextDocumentContentProvider s this) = Inr ()"
  shows "providers (resourceResolver (snd (registerTextDocumentContentProvider s this))) s =
           Some (proxy this)"
proof (cases "providers (resourceResolver this) s")
  case None
  then show ?thesis
    by (simp add: registerTextDocumentContentProvider_def registerContentProvider_absent)
next
  case (Some p)
  with assms show ?thesis by (simp add: registerTextDocumentContentProvider_present)
qed

lemma canonical_inv_new: "canonical_inv (new_CanonicalUriService, new_WorkspaceMainImpl q)"
  by (simp add: canonical_inv_def new_WorkspaceMainImpl_def)

lemma canonical_register_held:
  "s \<in> canonical_schemes (fst st) \<Longrightarrow>
   canonical_register s st = (Inl (CanonicalUriProviderExists s), st)"
  by (cases st)
     (simp add: canonical_register_def CanonicalUriService_register_def
        registerCanonicalUriProvider_def)

lemma canonical_register_fresh:
  "s \<notin> canonical_schemes (fst st) \<Longrightarrow>
   canonical_register s st =
     (Inr (),
      ((fst st)\<lparr>canonical_schemes := insert s (canonical_schemes (fst st))\<rparr>,
       (snd st)\<lparr>canonicalUriProviders :=
          (canonicalUriProviders (snd st))(s \<mapsto> RemoveCanonicalUriProvider s)\<rparr>))"
  by (cases st)
     (simp add: canonical_register_def CanonicalUriService_register_def
        registerCanonicalUriProvider_def)

lemma canonical_register_inv: "canonical_inv st \<Longrightarrow> canonical_inv (snd (canonical_register s st))"
proof (cases "s \<in> canonical_schemes (fst st)")
  case True
  assume "canonical_inv st"
  with True show ?thesis by (simp add: canonical_register_held)
next
  case False
  assume "canonical_inv st"
  with False show ?thesis
    by (auto simp: canonical_register_fresh canonical_inv_def)
qed

lemma canonical_unregister_absent:
  "canonicalUriProviders (snd st) s = None \<Longrightarrow>
   canonical_unregister s st = (st, [ConsoleWarn s])"
  by (cases st) (simp add: canonical_unregister_def unregisterCanonicalUriProvider_def)

lemma canonical_unregister_present:
  "canonicalUriProviders (snd st) s = Some d \<Longrightarrow>
   canonical_unregister s st =
     ((CanonicalUriService_dispose d (fst st),
       (snd st)\<lparr>canonicalUriProviders := (canonicalUriProviders (snd st))(s := None)\<rparr>),
      [Dispose d])"
  by (cases st)
     (simp add: canonical_unregister_def unregisterCanonicalUriProvider_def map_delete_def)

lemma canonical_unregister_inv:
  assumes "canonical_inv st"
  shows "canonical_inv (fst (canonical_unregister s st))"
proof (cases "canonicalUriProviders (snd st) s")
  case None
  with assms show ?thesis by (simp add: canonical_unregister_absent)
next
  case (Some d)
  with assms have d: "d = RemoveCanonicalUriProvider s" by (simp add: canonical_inv_def)
  have eq: "fst (canonical_unregister s st) =
              ((fst st)\<lparr>canonical_schemes := canonical_schemes (fst st) - {s}\<rparr>,
               (snd st)\<lparr>canonicalUriProviders := (canonicalUriProviders (snd st))(s := None)\<rparr>)"
    by (simp add: canonical_unregister_present [OF Some] d)
  show ?thesis
    unfolding eq canonical_inv_def
  proof (intro allI impI)
    fix s' d'
    assume listed: "canonicalUriProviders
                      (snd ((fst st)\<lparr>canonical_schemes := canonical_schemes (fst st) - {s}\<rparr>,
                            (snd st)\<lparr>canonicalUriProviders :=
                               (canonicalUriProviders (snd st))(s := None)\<rparr>)) s' = Some d'"
    then have ne: "s' \<noteq> s" by (auto split: if_splits)
    with listed have "canonicalUriProviders (snd st) s' = Some d'" by simp
    with assms have "d' = RemoveCanonicalUriProvider s' \<and> s' \<in> canonical_schemes (fst st)"
      by (simp add: canonical_inv_def)
    with ne show "d' = RemoveCanonicalUriProvider s' \<and>
                  s' \<in> canonical_schemes
                         (fst ((fst st)\<lparr>canonical_schemes := canonical_schemes (fst st) - {s}\<rparr>,
                               (snd st)\<lparr>canonicalUriProviders :=
                                  (canonicalUriProviders (snd st))(s := None)\<rparr>))"
      by simp
  qed
qed

lemma canonical_ops_inv: "canonical_inv st \<Longrightarrow> canonical_inv (canonical_ops ops st)"
  by (induction ops st rule: canonical_ops.induct)
     (simp_all add: canonical_register_inv canonical_unregister_inv)

lemma canonical_register_listed:
  assumes "canonical_inv st" and "canonicalUriProviders (snd st) s = Some d"
  shows "canonical_register s st = (Inl (CanonicalUriProviderExists s), st)"
proof -
  from assms have "s \<in> canonical_schemes (fst st)" by (simp add: canonical_inv_def)
  then show ?thesis by (rule canonical_register_held)
qed

text \<open>
  Claim C8.  Both registries are guarded.  On the text-content path, registering a
  scheme that is registered (in particular one that \<^verbatim>\<open>$registerTextDocumentContentProvider\<close>
  has just registered) and unregistering an absent one both throw and leave the object
  unchanged.  On the canonical-URI path, unregistering an absent scheme only logs a
  warning and leaves the object and the service unchanged; and
  \<^verbatim>\<open>$registerCanonicalUriProvider\<close> for a scheme that is already registered is
  rejected, leaving the object and the service unchanged: so right after a successful
  registration, and so for any scheme listed in \<^verbatim>\<open>canonicalUriProviders\<close> after any
  sequence of registrations and unregistrations on a new object and a new service.
\<close>

theorem provider_registrations_guarded:
  "(providers (resourceResolver this) s = Some p \<longrightarrow>
      registerTextDocumentContentProvider s this = (Inl (ProviderAlreadyRegistered s), this)) \<and>
   (fst (registerTextDocumentContentProvider s this) = Inr () \<longrightarrow>
      registerTextDocumentContentProvider s (snd (registerTextDocumentContentProvider s this)) =
        (Inl (ProviderAlreadyRegistered s), snd (registerTextDocumentContentProvider s this))) \<and>
   (providers (resourceResolver this) s = None \<longrightarrow>
      unregisterTextDocumentContentProvider s this = (Inl (ProviderNotRegistered s), this)) \<and>
   (canonicalUriProviders this s = None \<longrightarrow>
      canonical_unregister s (service, this) = ((service, this), [ConsoleWarn s])) \<and>
   (fst (canonical_register s (service, this)) = Inr () \<longrightarrow>
      canonical_register s (snd (canonical_register s (service, this))) =
        (Inl (CanonicalUriProviderExists s), snd (canonical_register s (service, this)))) \<and>
   (canonicalUriProviders
      (snd (canonical_ops ops (new_CanonicalUriService, new_WorkspaceMainImpl q))) s \<noteq> None \<longrightarrow>
      canonical_register s (canonical_ops ops (new_CanonicalUriService, new_WorkspaceMainImpl q)) =
        (Inl (CanonicalUriProviderExists s),
         canonical_ops ops (new_CanonicalUriService, new_WorkspaceMainImpl q)))"
proof (intro conjI impI)
  assume "providers (resourceResolver this) s = Some p"
  then show "registerTextDocumentContentProvider s this = (Inl (ProviderAlreadyRegistered s), this)"
    by (rule registerTextDocumentContentProvider_present)
next
  assume "fst (registerTextDocumentContentProvider s this) = Inr ()"
  then have "providers (resourceResolver (snd (registerTextDocumentContentProvider s this))) s =
               Some (proxy this)"
    by (rule registerTextDocumentContentProvider_registers)
  then show "registerTextDocumentContentProvider s (snd (registerTextDocumentContentProvider s this)) =
        (Inl (ProviderAlreadyRegistered s), snd (registerTextDocumentContentProvider s this))"
    by (rule registerTextDocumentContentProvider_present)
next
  assume "providers (resourceResolver this) s = None"
  then show "unregisterTextDocumentContentProvider s this = (Inl (ProviderNotRegistered s), this)"
    by (simp add: unregisterTextDocumentContentProvider_def unregisterContentProvider_absent)
next
  assume "canonicalUriProviders this s = None"
  then show "canonical_unregister s (service, this) = ((service, this), [ConsoleWarn s])"
    by (simp add: canonical_unregister_absent)
next
  assume ok: "fst (canonical_register s (service, this)) = Inr ()"
  have fresh: "s \<notin> canonical_schemes service"
  proof
    assume "s \<in> canonical_schemes service"
    then have "canonical_register s (service, this) =
                 (Inl (CanonicalUriProviderExists s), (service, this))"
      by (simp add: canonical_register_held)
    with ok show False by simp
  qed
  then have "s \<in> canonical_schemes (fst (snd (canonical_register s (service, this))))"
    by (simp add: canonical_register_fresh)
  then show "canonical_register s (snd (canonical_register s (service, this))) =
        (Inl (CanonicalUriProviderExists s), snd (canonical_register s (service, this)))"
    by (rule canonical_register_held)
next
  let ?st = "canonical_ops ops (new_CanonicalUriService, new_WorkspaceMainImpl q)"
  assume "canonicalUriProviders (snd ?st) s \<noteq> None"
  then obtain d where d: "canonicalUriProviders (snd ?st) s = Some d" by blast
  have "canonical_inv ?st" by (rule canonical_ops_inv) (rule canonical_inv_new)
  from canonical_register_listed [OF this d]
  show "canonical_register s ?st = (Inl (CanonicalUriProviderExists s), ?st)" .
qed

text \<open>
  On a new object and a new service: \<^verbatim>\<open>mem\<close> registered twice as a text-content scheme,
  \<^verbatim>\<open>ssh\<close> registered twice as a canonical-URI scheme, and \<^verbatim>\<open>git\<close> unregistered on both
  paths without having been registered.
\<close>

theorem provider_registrations_guarded_witness:
  "fst (registerTextDocumentContentProvider ''mem''
          (new_WorkspaceMainImpl () :: (unit, canonical_disposable) WorkspaceMainImpl)) = Inr () \<and>
   fst (registerTextDocumentContentProvider ''mem''
      (snd (registerTextDocumentContentProvider ''mem''
             (new_WorkspaceMainImpl () :: (unit, canonical_disposable) WorkspaceMainImpl)))) =
     Inl (ProviderAlreadyRegistered ''mem'') \<and>
   providers (resourceResolver
      (new_WorkspaceMainImpl () :: (unit, canonical_disposable) WorkspaceMainImpl)) ''git'' = None \<and>
   fst (unregisterTextDocumentContentProvider ''git''
          (new_WorkspaceMainImpl () :: (unit, canonical_disposable) WorkspaceMainImpl)) =
     Inl (ProviderNotRegistered ''git'') \<and>
   canonicalUriProviders
     (new_WorkspaceMainImpl () :: (unit, canonical_disposable) WorkspaceMainImpl) ''git'' = None \<and>
   canonical_unregister ''git'' (new_CanonicalUriService, new_WorkspaceMainImpl ()) =
     ((new_CanonicalUriService, new_WorkspaceMainImpl ()), [ConsoleWarn ''git'']) \<and>
   fst (canonical_register ''ssh'' (new_CanonicalUriService, new_WorkspaceMainImpl ())) = Inr () \<and>
   fst (canonical_register ''ssh''
          (snd (canonical_register ''ssh'' (new_CanonicalUriService, new_WorkspaceMainImpl ())))) =
     Inl (CanonicalUriProviderExists ''ssh'') \<and>
   canonicalUriProviders
     (snd (canonical_ops [CanonicalRegisterOp ''ssh'', CanonicalUnregisterOp ''git'']
             (new_CanonicalUriService, new_WorkspaceMainImpl ()))) ''ssh'' \<noteq> None \<and>
   fst (canonical_register ''ssh''
          (canonical_ops [CanonicalRegisterOp ''ssh'', CanonicalUnregisterOp ''git'']
             (new_CanonicalUriService, new_WorkspaceMainImpl ()))) =
     Inl (CanonicalUriProviderExists ''ssh'')"
proof -
  let ?w = "new_WorkspaceMainImpl () :: (unit, canonical_disposable) WorkspaceMainImpl"
  let ?ops = "[CanonicalRegisterOp ''ssh'', CanonicalUnregisterOp ''git'']"
  have reg: "fst (registerTextDocumentContentProvider ''mem'' ?w) = Inr ()"
    by (simp add: registerTextDocumentContentProvider_def registerContentProvider_def map_has_def
          new_WorkspaceMainImpl_def new_TextContentResourceResolver_def)
  have abs1: "providers (resourceResolver ?w) ''git'' = None"
    by (simp add: new_WorkspaceMainImpl_def new_TextContentResourceResolver_def)
  have abs2: "canonicalUriProviders ?w ''git'' = None"
    by (simp add: new_WorkspaceMainImpl_def)
  have creg: "fst (canonical_register ''ssh'' (new_CanonicalUriService, ?w)) = Inr ()"
    by (simp add: canonical_register_def CanonicalUriService_register_def
          registerCanonicalUriProvider_def new_CanonicalUriService_def)
  have listed: "canonicalUriProviders (snd (canonical_ops ?ops (new_CanonicalUriService, ?w))) ''ssh'' \<noteq> None"
    by (simp add: canonical_register_def CanonicalUriService_register_def
          registerCanonicalUriProvider_def new_CanonicalUriService_def canonical_unregister_def
          unregisterCanonicalUriProvider_def new_WorkspaceMainImpl_def)
  note g = provider_registrations_guarded
  have 1: "fst (registerTextDocumentContentProvider ''mem''
                  (snd (registerTextDocumentContentProvider ''mem'' ?w))) =
             Inl (ProviderAlreadyRegistered ''mem'')"
    using g [of ?w "''mem''" "()" new_CanonicalUriService ?ops "()",
             THEN conjunct2, THEN conjunct1, THEN mp, OF reg]
    by (simp only: fst_conv)
  have 2: "fst (unregisterTextDocumentContentProvider ''git'' ?w) = Inl (ProviderNotRegistered ''git'')"
    using g [of ?w "''git''" "()" new_CanonicalUriService ?ops "()",
             THEN conjunct2, THEN conjunct2, THEN conjunct1, THEN mp, OF abs1]
    by (simp only: fst_conv)
  have 3: "canonical_unregister ''git'' (new_CanonicalUriService, ?w) =
             ((new_CanonicalUriService, ?w), [ConsoleWarn ''git''])"
    using g [of ?w "''git''" "()" new_CanonicalUriService ?ops "()",
             THEN conjunct2, THEN conjunct2, THEN conjunct2, THEN conjunct1, THEN mp, OF abs2]
    .
  have 4: "fst (canonical_register ''ssh'' (snd (canonical_register ''ssh'' (new_CanonicalUriService, ?w)))) =
             Inl (CanonicalUriProviderExists ''ssh'')"
    using g [of ?w "''ssh''" "()" new_CanonicalUriService ?ops "()",
             THEN conjunct2, THEN conjunct2, THEN conjunct2, THEN conjunct2, THEN conjunct1,
             THEN mp, OF creg]
    by (simp only: fst_conv)
  have 5: "fst (canonical_register ''ssh'' (canonical_ops ?ops (new_CanonicalUriService, ?w))) =
             Inl (CanonicalUriProviderExists ''ssh'')"
    using g [of ?w "''ssh''" "()" new_CanonicalUriService ?ops "()",
             THEN conjunct2, THEN conjunct2, THEN conjunct2, THEN conjunct2, THEN conjunct2,
             THEN mp, OF listed]
    by (simp only: fst_conv)
  show ?thesis by (intro conjI reg abs1 abs2 creg listed 1 2 3 4 5)
qed

section \<open>Properties of the text search\<close>

lemma truncateMatches_within:
  "m \<le> h \<Longrightarrow> truncateMatches m h ms = Some (take (nat (h - m)) ms)"
proof (induction ms rule: rev_induct)
  case Nil
  then show ?case by (subst truncateMatches.simps) simp
next
  case (snoc x xs)
  show ?case
  proof (cases "m + int (length (xs @ [x])) > h")
    case True
    then have "truncateMatches m h (xs @ [x]) = truncateMatches m h xs"
      by (subst truncateMatches.simps) (simp add: splice_last_def)
    moreover from True snoc.prems have "nat (h - m) \<le> length xs" by simp
    ultimately show ?thesis using snoc by simp
  next
    case False
    then have "truncateMatches m h (xs @ [x]) = Some (xs @ [x])"
      by (subst truncateMatches.simps) simp
    moreover from False have "length (xs @ [x]) \<le> nat (h - m)" by simp
    ultimately show ?thesis by simp
  qed
qed

lemma total_delivered_Nil [simp]: "total_delivered [] = 0"
  by (simp add: total_delivered_def)

lemma total_delivered_Cons [simp]: "total_delivered (c # cs) = delivered c + total_delivered cs"
  by (simp add: total_delivered_def)

lemma total_delivered_append [simp]:
  "total_delivered (cs @ cs') = total_delivered cs + total_delivered cs'"
  by (simp add: total_delivered_def)

lemma total_delivered_cancels [simp]: "total_delivered (map SearchCancel ids) = 0"
  by (induction ids) simp_all

lemma promise_result_append:
  "promise_result (cs @ cs') =
     (case promise_result cs of None \<Rightarrow> promise_result cs' | Some b \<Rightarrow> Some b)"
  by (induction cs rule: promise_result.induct) simp_all

lemma promise_result_cancels [simp]: "promise_result (map SearchCancel ids) = None"
  by (induction ids) simp_all

lemma take_neq_length: "take n ms \<noteq> ms \<Longrightarrow> length (take n ms) = n"
  by (cases "n < length ms") simp_all

lemma onResult_step:
  assumes "matches (snd st) \<le> h"
  shows "\<exists>st' calls. onResult h rid sid tok r st = Some (st', calls) \<and>
           matches (snd st') \<le> h \<and>
           matches (snd st') = matches (snd st) + int (total_delivered calls) \<and>
           (batch_truncated (ResultEvent sid tok r) calls \<longrightarrow> matches (snd st') = h) \<and>
           promise_result calls = None"
proof -
  obtain this c where st: "st = (this, c)" by (cases st)
  show ?thesis
  proof (cases "canceledRequest c \<or> tok")
    case True
    with st assms show ?thesis by (auto simp: onResult_def Let_def)
  next
    case False
    note live = this
    show ?thesis
    proof (cases "\<exists>x ms. r = Some x \<and> result_matches x = Some ms \<and> ms \<noteq> []")
      case False
      with live st assms show ?thesis
        by (auto simp: onResult_def Let_def split: option.splits)
    next
      case True
      then obtain x ms where r: "r = Some x" "result_matches x = Some ms" "ms \<noteq> []" by blast
      from assms st have le: "matches c \<le> h" by simp
      let ?ms' = "take (nat (h - matches c)) ms"
      have len: "int (length ?ms') \<le> h - matches c" using le by simp
      have trunc: "?ms' \<noteq> ms \<Longrightarrow> int (length ?ms') = h - matches c"
        using take_neq_length [of "nat (h - matches c)" ms] le by simp
      from live st r le len trunc show ?thesis
        by (auto simp: onResult_def Let_def truncateMatches_within)
    qed
  qed
qed

lemma onDone_step:
  "\<exists>st' calls. onDone h rid sid st = (st', calls) \<and>
     matches (snd st') = matches (snd st) \<and> total_delivered calls = 0 \<and>
     promise_result calls = Some (h \<le> matches (snd st)) \<and>
     (h \<le> matches (snd st) \<longrightarrow> Resolve True \<in> set calls)"
  by (cases st) (auto simp: onDone_def Let_def)

lemma onCancellationRequested_step:
  "\<exists>st' calls. onCancellationRequested st = (st', calls) \<and>
     matches (snd st') = matches (snd st) \<and> total_delivered calls = 0 \<and>
     promise_result calls = None"
  by (cases st) (auto simp: onCancellationRequested_def Let_def)

lemma search_step_inv:
  fixes ev :: "'m search_event"
  assumes "matches (snd st) \<le> h"
  shows "\<exists>st' calls. search_step h rid ev st = Some (st', calls) \<and>
           matches (snd st') \<le> h \<and>
           matches (snd st') = matches (snd st) + int (total_delivered calls) \<and>
           (batch_truncated ev calls \<longrightarrow> matches (snd st') = h) \<and>
           ((\<forall>sid. ev \<noteq> DoneEvent sid) \<longrightarrow> promise_result calls = None)"
proof (cases ev)
  case (ResultEvent sid tok r)
  with onResult_step [OF assms, of rid sid tok r] show ?thesis
    by (auto simp: search_step_def)
next
  case (DoneEvent sid)
  from onDone_step [of h rid sid st]
  obtain st' and calls :: "'m search_call list" where "onDone h rid sid st = (st', calls)"
    and "matches (snd st') = matches (snd st)" and "total_delivered calls = 0"
    by blast
  with DoneEvent assms show ?thesis by (cases st') (simp add: search_step_def)
next
  case CancellationEvent
  from onCancellationRequested_step [of st]
  obtain st' and calls :: "'m search_call list" where "onCancellationRequested st = (st', calls)"
    and "matches (snd st') = matches (snd st)" and "total_delivered calls = 0"
    and "promise_result calls = None"
    by blast
  with CancellationEvent assms show ?thesis by (cases st') (simp add: search_step_def)
qed

lemma search_run_inv:
  assumes "matches (snd st) \<le> h"
  shows "\<exists>st' calls. search_run h rid evs st = Some (st', calls) \<and>
           matches (snd st') \<le> h \<and>
           matches (snd st') = matches (snd st) + int (total_delivered calls) \<and>
           (truncation_occurs h rid evs st \<longrightarrow> matches (snd st') = h) \<and>
           ((\<forall>sid. DoneEvent sid \<notin> set evs) \<longrightarrow> promise_result calls = None)"
  using assms
proof (induction evs arbitrary: st)
  case Nil
  then show ?case by simp
next
  case (Cons ev evs)
  from search_step_inv [OF Cons.prems, of rid ev]
  obtain st1 calls1 where step: "search_step h rid ev st = Some (st1, calls1)"
    and le1: "matches (snd st1) \<le> h"
    and sum1: "matches (snd st1) = matches (snd st) + int (total_delivered calls1)"
    and tr1: "batch_truncated ev calls1 \<longrightarrow> matches (snd st1) = h"
    and pr1: "(\<forall>sid. ev \<noteq> DoneEvent sid) \<longrightarrow> promise_result calls1 = None"
    by blast
  from Cons.IH [OF le1]
  obtain st2 calls2 where run: "search_run h rid evs st1 = Some (st2, calls2)"
    and le2: "matches (snd st2) \<le> h"
    and sum2: "matches (snd st2) = matches (snd st1) + int (total_delivered calls2)"
    and tr2: "truncation_occurs h rid evs st1 \<longrightarrow> matches (snd st2) = h"
    and pr2: "(\<forall>sid. DoneEvent sid \<notin> set evs) \<longrightarrow> promise_result calls2 = None"
    by blast
  have "search_run h rid (ev # evs) st = Some (st2, calls1 @ calls2)"
    using step run by simp
  moreover have "matches (snd st2) = matches (snd st) + int (total_delivered (calls1 @ calls2))"
    using sum1 sum2 by simp
  moreover have "truncation_occurs h rid (ev # evs) st \<longrightarrow> matches (snd st2) = h"
    using step tr1 tr2 le2 sum2 by auto
  moreover have "(\<forall>sid. DoneEvent sid \<notin> set (ev # evs)) \<longrightarrow> promise_result (calls1 @ calls2) = None"
    using pr1 pr2 by (auto simp: promise_result_append)
  ultimately show ?case using le2 by blast
qed

lemma search_run_append:
  "search_run h rid (evs @ evs') st =
     (case search_run h rid evs st of
        None \<Rightarrow> None
      | Some (st1, calls1) \<Rightarrow>
          (case search_run h rid evs' st1 of
             None \<Rightarrow> None
           | Some (st2, calls2) \<Rightarrow> Some (st2, calls1 @ calls2)))"
  by (induction evs arbitrary: st) (auto split: option.splits)

lemma maxHits_of_positive:
  "(case maxResults options of None \<Rightarrow> True | Some n \<Rightarrow> 0 \<le> n) \<Longrightarrow> 0 < maxHits_of options"
  by (auto simp: maxHits_of_def split: option.splits)

lemma truncateMatches_result:
  assumes "truncateMatches m h ms = Some ms'"
  shows "m + int (length ms') \<le> h"
proof (rule truncateMatches.raw_induct [where P = "\<lambda>m h ms ms'. m + int (length ms') \<le> h"])
  show "truncateMatches m h ms = Some ms'" by (rule assms)
next
  fix f :: "int \<Rightarrow> int \<Rightarrow> 'a list \<Rightarrow> 'a list option" and m h ms ms'
  assume IH: "\<And>m h ms ms'. f m h ms = Some ms' \<Longrightarrow> m + int (length ms') \<le> h"
    and step: "(if h < m + int (length ms) then f m h (splice_last ms) else Some ms) = Some ms'"
  show "m + int (length ms') \<le> h"
  proof (cases "h < m + int (length ms)")
    case True
    with step have "f m h (splice_last ms) = Some ms'" by simp
    then show ?thesis by (rule IH)
  next
    case False
    with step show ?thesis by simp
  qed
qed

lemma truncateMatches_diverges: "h < m \<Longrightarrow> truncateMatches m h ms = None"
proof (cases "truncateMatches m h ms")
  case None
  then show ?thesis .
next
  case (Some ms')
  assume "h < m"
  with truncateMatches_result [OF Some] show ?thesis by simp
qed

lemma onResult_negative_cap_diverges:
  assumes "h < 0" and "matches c = 0" and "\<not> canceledRequest c"
    and "result_matches r = Some ms" and "ms \<noteq> []"
  shows "onResult h rid sid False (Some r) (this, c) = None"
  using assms by (simp add: onResult_def Let_def truncateMatches_diverges)

text \<open>
  Claim C1, as stated, takes the cap to be \<^verbatim>\<open>options.maxResults\<close> whenever that is
  given.  The source selects it with a truthiness test, so a given \<^verbatim>\<open>maxResults\<close> of 0
  is replaced by the default 150: a batch of one match is then delivered, which is
  more than 0.
\<close>

theorem findTextInFiles_zero_cap_counterexample:
  "findTextInFiles \<lparr>maxResults = Some 0\<rparr> 1
     [ResultEvent 7 False (Some \<lparr>result_matches = Some ''a''\<rparr>)]
     (new_WorkspaceMainImpl () :: (unit, unit) WorkspaceMainImpl) =
     Some (((new_WorkspaceMainImpl ())\<lparr>workspaceSearch := {7}\<rparr>,
            \<lparr>matches = 1, canceledRequest = False, tokenListeners = [7]\<rparr>),
           [OnTextSearchResult 1 False (Some \<lparr>result_matches = Some ''a''\<rparr>)]) \<and>
   \<not> int (total_delivered [OnTextSearchResult 1 False (Some \<lparr>result_matches = Some ''a''\<rparr>)])
       \<le> spec_cap \<lparr>maxResults = Some 0\<rparr>"
  by (simp add: findTextInFiles_def search_step_def onResult_def maxHits_of_def spec_cap_def
        new_TextSearchClosure_def new_WorkspaceMainImpl_def truncateMatches_within Let_def)

text \<open>
  Claim C1, amended.  Let \<^verbatim>\<open>options.maxResults\<close> be absent, 0 or positive, and let the
  cap N be \<^verbatim>\<open>maxResults\<close> when it is positive and 150 when it is absent or 0.  Then for
  every sequence of results, completion signals and token cancellations, every
  callback returns, and the matches delivered in all \<^verbatim>\<open>$onTextSearchResult\<close> calls
  together never exceed N.  When some delivered batch was truncated, an \<^verbatim>\<open>onDone\<close> that
  follows calls \<^verbatim>\<open>resolve\<close> with \<^verbatim>\<open>limitHit = true\<close>, and that is what the promise
  resolves to when no completion was signalled before.  (For a negative
  \<^verbatim>\<open>maxResults\<close> the truncation loop does not end on the first non-empty batch, by
  \<open>onResult_negative_cap_diverges\<close>.)
\<close>

theorem findTextInFiles_capped:
  fixes evs :: "'m search_event list"
  assumes "case maxResults options of None \<Rightarrow> True | Some n \<Rightarrow> 0 \<le> n"
  shows "maxHits_of options =
           (if maxResults options = None \<or> maxResults options = Some 0 then 150
            else the (maxResults options)) \<and>
         (\<exists>st (calls :: 'm search_call list).
           findTextInFiles options rid evs this = Some (st, calls) \<and>
           int (total_delivered calls) \<le> maxHits_of options \<and>
           (truncation_occurs (maxHits_of options) rid evs (this, new_TextSearchClosure) \<longrightarrow>
              (\<forall>sid. (Resolve True :: 'm search_call) \<in> set (snd (onDone (maxHits_of options) rid sid st)) \<and>
                 ((\<forall>sid'. DoneEvent sid' \<notin> set evs) \<longrightarrow>
                    (\<exists>st' calls'. findTextInFiles options rid (evs @ [DoneEvent sid]) this = Some (st', calls') \<and>
                        promise_result calls' = Some True)))))"
proof -
  let ?h = "maxHits_of options"
  have cap_def: "maxHits_of options =
           (if maxResults options = None \<or> maxResults options = Some 0 then 150
            else the (maxResults options))"
    by (auto simp: maxHits_of_def split: option.splits)
  let ?st0 = "(this, new_TextSearchClosure)"
  have h0: "matches (snd ?st0) \<le> ?h"
    using maxHits_of_positive [OF assms] by (simp add: new_TextSearchClosure_def)
  from search_run_inv [OF h0, of rid evs]
  obtain st calls where run: "search_run ?h rid evs ?st0 = Some (st, calls)"
    and le: "matches (snd st) \<le> ?h"
    and sum: "matches (snd st) = matches (snd ?st0) + int (total_delivered calls)"
    and tr: "truncation_occurs ?h rid evs ?st0 \<longrightarrow> matches (snd st) = ?h"
    and pr: "(\<forall>sid. DoneEvent sid \<notin> set evs) \<longrightarrow> promise_result calls = None"
    by blast
  have cap: "int (total_delivered calls) \<le> ?h"
    using le sum by (simp add: new_TextSearchClosure_def)
  have after: "\<forall>sid. (Resolve True :: 'm search_call) \<in> set (snd (onDone ?h rid sid st)) \<and>
                 ((\<forall>sid'. DoneEvent sid' \<notin> set evs) \<longrightarrow>
                    (\<exists>st' calls'. findTextInFiles options rid (evs @ [DoneEvent sid]) this = Some (st', calls') \<and>
                        promise_result calls' = Some True))"
    if t: "truncation_occurs ?h rid evs ?st0"
  proof
    fix sid
    from t tr have full: "?h \<le> matches (snd st)" by simp
    from onDone_step [of ?h rid sid st] full
    obtain st' and calls' :: "'m search_call list" where d: "onDone ?h rid sid st = (st', calls')"
      and r: "Resolve True \<in> set calls'" and p: "promise_result calls' = Some True"
      by auto
    have "findTextInFiles options rid (evs @ [DoneEvent sid]) this = Some (st', calls @ calls')"
      using run d by (simp add: findTextInFiles_def search_run_append search_step_def)
    moreover have "(\<forall>sid'. DoneEvent sid' \<notin> set evs) \<longrightarrow> promise_result (calls @ calls') = Some True"
      using pr p by (simp add: promise_result_append)
    ultimately show "(Resolve True :: 'm search_call) \<in> set (snd (onDone ?h rid sid st)) \<and>
                 ((\<forall>sid'. DoneEvent sid' \<notin> set evs) \<longrightarrow>
                    (\<exists>st' calls'. findTextInFiles options rid (evs @ [DoneEvent sid]) this = Some (st', calls') \<and>
                        promise_result calls' = Some True))"
      using d r by auto
  qed
  from run cap after have "\<exists>st (calls :: 'm search_call list).
           findTextInFiles options rid evs this = Some (st, calls) \<and>
           int (total_delivered calls) \<le> maxHits_of options \<and>
           (truncation_occurs (maxHits_of options) rid evs (this, new_TextSearchClosure) \<longrightarrow>
              (\<forall>sid. (Resolve True :: 'm search_call) \<in> set (snd (onDone (maxHits_of options) rid sid st)) \<and>
                 ((\<forall>sid'. DoneEvent sid' \<notin> set evs) \<longrightarrow>
                    (\<exists>st' calls'. findTextInFiles options rid (evs @ [DoneEvent sid]) this = Some (st', calls') \<and>
                        promise_result calls' = Some True))))"
    by (auto simp: findTextInFiles_def)
  with cap_def show ?thesis by blast
qed

text \<open>
  A cap of 2 and a single batch of three matches, followed by the completion signal:
  two matches are delivered, the search is cancelled, and the promise resolves with
  \<^verbatim>\<open>limitHit = true\<close>.
\<close>

theorem findTextInFiles_capped_witness:
  "(case maxResults \<lparr>maxResults = Some 2\<rparr> of None \<Rightarrow> True | Some n \<Rightarrow> 0 \<le> n) \<and>
   truncation_occurs (maxHits_of \<lparr>maxResults = Some 2\<rparr>) 1
     [ResultEvent 7 False (Some \<lparr>result_matches = Some ''abc''\<rparr>)]
     (new_WorkspaceMainImpl () :: (unit, unit) WorkspaceMainImpl, new_TextSearchClosure) \<and>
   (\<forall>sid'. DoneEvent sid' \<notin> set [ResultEvent 7 False (Some \<lparr>result_matches = Some ''abc''\<rparr>)]) \<and>
   findTextInFiles \<lparr>maxResults = Some 2\<rparr> 1
     ([ResultEvent 7 False (Some \<lparr>result_matches = Some ''abc''\<rparr>)] @ [DoneEvent 7])
     (new_WorkspaceMainImpl () :: (unit, unit) WorkspaceMainImpl) =
     Some ((new_WorkspaceMainImpl (),
            \<lparr>matches = 2, canceledRequest = False, tokenListeners = [7]\<rparr>),
           [OnTextSearchResult 1 False (Some \<lparr>result_matches = Some ''ab''\<rparr>),
            SearchCancel 7, SearchCancel 7, OnTextSearchResult 1 True None, Resolve True]) \<and>
   (\<exists>st' calls'.
      findTextInFiles \<lparr>maxResults = Some 2\<rparr> 1
        ([ResultEvent 7 False (Some \<lparr>result_matches = Some ''abc''\<rparr>)] @ [DoneEvent 7])
        (new_WorkspaceMainImpl () :: (unit, unit) WorkspaceMainImpl) = Some (st', calls') \<and>
      promise_result calls' = Some True)"
proof -
  let ?opts = "\<lparr>maxResults = Some 2\<rparr>"
  let ?evs = "[ResultEvent 7 False (Some \<lparr>result_matches = Some ''abc''\<rparr>)]"
  let ?w = "new_WorkspaceMainImpl () :: (unit, unit) WorkspaceMainImpl"
  have hyp: "case maxResults ?opts of None \<Rightarrow> True | Some n \<Rightarrow> 0 \<le> n" by simp
  have tr: "truncation_occurs (maxHits_of ?opts) 1 ?evs (?w, new_TextSearchClosure)"
    by (simp add: search_step_def onResult_def maxHits_of_def
          new_TextSearchClosure_def new_WorkspaceMainImpl_def truncateMatches_within Let_def)
  have nd: "\<forall>sid'. DoneEvent sid' \<notin> set ?evs" by simp
  have run: "findTextInFiles ?opts 1 (?evs @ [DoneEvent 7]) ?w =
     Some ((new_WorkspaceMainImpl (),
            \<lparr>matches = 2, canceledRequest = False, tokenListeners = [7]\<rparr>),
           [OnTextSearchResult 1 False (Some \<lparr>result_matches = Some ''ab''\<rparr>),
            SearchCancel 7, SearchCancel 7, OnTextSearchResult 1 True None, Resolve True])"
    by (simp add: findTextInFiles_def search_step_def onResult_def onDone_def maxHits_of_def
          new_TextSearchClosure_def new_WorkspaceMainImpl_def truncateMatches_within Let_def)
  from findTextInFiles_capped [OF hyp, of 1 ?evs ?w] tr nd
  have "\<exists>st' calls'. findTextInFiles ?opts 1 (?evs @ [DoneEvent 7]) ?w = Some (st', calls') \<and>
          promise_result calls' = Some True"
    by blast
  with hyp tr nd run show ?thesis by blast
qed

end
